theory Spec2Isabelle
  imports Main
begin

section \<open>MakeMKV robot-mode output: decoder, classifier, runner and track aggregator\<close>

text \<open>
  A shallow embedding of \<^verbatim>\<open>arm/ripper/makemkv.py\<close>. Python strings are modelled
  as \<open>string\<close> (code points below 256), Python integers as \<open>int\<close>, exceptions as
  values of the datatype \<open>exn\<close> returned on the left of a sum.
\<close>

subsection \<open>String primitives of the Python runtime\<close>

text \<open>
  \<^verbatim>\<open>str.isspace\<close> for one character, on the code points below 256:
  TAB to CR, FS to US, space, NEL and NBSP.
\<close>

definition py_isspace :: "char \<Rightarrow> bool" where
  "py_isspace c =
     (let n = (of_char c :: nat)
      in (9 \<le> n \<and> n \<le> 13) \<or> (28 \<le> n \<and> n \<le> 32) \<or> n = 133 \<or> n = 160)"

text \<open>\<^verbatim>\<open>s.strip(chars)\<close>, \<^verbatim>\<open>s.rstrip(chars)\<close> and \<^verbatim>\<open>s.strip()\<close>:
  every leading and trailing character of the given set is removed.\<close>

definition py_rstrip :: "string \<Rightarrow> string \<Rightarrow> string" where
  "py_rstrip chars s = rev (dropWhile (\<lambda>c. c \<in> set chars) (rev s))"

definition py_strip :: "string \<Rightarrow> string \<Rightarrow> string" where
  "py_strip chars s = dropWhile (\<lambda>c. c \<in> set chars) (py_rstrip chars s)"

definition py_strip_ws :: "string \<Rightarrow> string" where
  "py_strip_ws s = dropWhile py_isspace (rev (dropWhile py_isspace (rev s)))"

text \<open>
  \<open>find_sep sep s\<close> cuts \<open>s\<close> at the leftmost occurrence of \<open>sep\<close>: the text
  before it and the text after it.
\<close>

fun find_sep :: "string \<Rightarrow> string \<Rightarrow> (string \<times> string) option" where
  "find_sep sep [] = (if sep = [] then Some ([], []) else None)"
| "find_sep sep (c # cs) =
     (if take (length sep) (c # cs) = sep then Some ([], drop (length sep) (c # cs))
      else case find_sep sep cs of
             None \<Rightarrow> None
           | Some (a, b) \<Rightarrow> Some (c # a, b))"

text \<open>
  \<^verbatim>\<open>s.split(sep, maxsplit)\<close>: at most \<open>maxsplit\<close> cuts, taken from the left; a
  negative \<open>maxsplit\<close> means no limit. Python raises ValueError on an empty
  separator; the program only passes literal, non-empty separators, and the
  model returns the string uncut there.
\<close>

function py_split :: "string \<Rightarrow> int \<Rightarrow> string \<Rightarrow> string list" where
  "py_split sep maxsplit s =
     (if sep = [] \<or> maxsplit = 0 then [s]
      else case find_sep sep s of
             None \<Rightarrow> [s]
           | Some (a, b) \<Rightarrow> a # py_split sep (maxsplit - 1) b)"
  by pat_completeness auto
termination
proof (relation "measure (\<lambda>(sep, maxsplit, s). length s)")
  show "wf (measure (\<lambda>(sep, maxsplit, s). length s))" by simp
next
  fix sep :: string and maxsplit :: int and s x2 a b
  assume ne: "\<not> (sep = [] \<or> maxsplit = 0)"
    and found: "find_sep sep s = Some x2" and x2: "(a, b) = x2"
  have shorter: "find_sep sep t = Some (u, v) \<Longrightarrow> length v < length t" for t u v
  proof (induction t arbitrary: u v)
    case Nil
    with ne show ?case by simp
  next
    case (Cons c cs)
    show ?case
    proof (cases "take (length sep) (c # cs) = sep")
      case True
      with Cons.prems ne show ?thesis by (cases sep) auto
    next
      case False
      with Cons.prems obtain u' where "find_sep sep cs = Some (u', v)"
        by (auto split: option.splits)
      from Cons.IH [OF this] show ?thesis by simp
    qed
  qed
  from shorter [of s a b] found x2
  show "((sep, maxsplit - 1, b), (sep, maxsplit, s)) \<in> measure (\<lambda>(sep, maxsplit, s). length s)"
    by simp
qed

declare py_split.simps [simp del]

text \<open>\<^verbatim>\<open>s.split()\<close>: the maximal runs of non-whitespace characters.\<close>

fun py_words_acc :: "string \<Rightarrow> string \<Rightarrow> string list" where
  "py_words_acc w [] = (if w = [] then [] else [rev w])"
| "py_words_acc w (c # cs) =
     (if py_isspace c then (if w = [] then [] else [rev w]) @ py_words_acc [] cs
      else py_words_acc (c # w) cs)"

definition py_words :: "string \<Rightarrow> string list" where
  "py_words s = py_words_acc [] s"

text \<open>\<^verbatim>\<open>sep.join(xs)\<close>.\<close>

fun py_join :: "string \<Rightarrow> string list \<Rightarrow> string" where
  "py_join sep [] = []"
| "py_join sep [x] = x"
| "py_join sep (x # y # ys) = x @ sep @ py_join sep (y # ys)"

text \<open>
  \<^verbatim>\<open>int(s)\<close> on a string, base 10: surrounding whitespace is ignored, one
  sign is allowed, and single underscores may separate digits. \<open>None\<close> stands for
  the ValueError. The whitespace \<^verbatim>\<open>int\<close> skips is not that of
  \<^verbatim>\<open>str.strip\<close>: of the characters below 128 only TAB to CR and the space
  (the separators FS to US are left in place and make the literal invalid), and
  the whitespace above, NEL and NBSP. A literal of more than
  \<open>int_max_str_digits\<close> digits, the default limit of the interpreter for the
  conversion, is a ValueError as well; the sign and the underscores do not
  count, leading zeros do.
\<close>

definition py_int_isspace :: "char \<Rightarrow> bool" where
  "py_int_isspace c =
     (let n = (of_char c :: nat)
      in (9 \<le> n \<and> n \<le> 13) \<or> n = 32 \<or> n = 133 \<or> n = 160)"

definition int_max_str_digits :: nat where
  "int_max_str_digits = 4300"

definition is_digit :: "char \<Rightarrow> bool" where
  "is_digit c = (48 \<le> (of_char c :: nat) \<and> (of_char c :: nat) \<le> 57)"

definition digit_val :: "char \<Rightarrow> int" where
  "digit_val c = int (of_char c) - 48"

fun digits_rest :: "int \<Rightarrow> string \<Rightarrow> int option" where
  "digits_rest acc [] = Some acc"
| "digits_rest acc [c] = (if is_digit c then Some (10 * acc + digit_val c) else None)"
| "digits_rest acc (c # d # cs) =
     (if is_digit c then digits_rest (10 * acc + digit_val c) (d # cs)
      else if c = CHR ''_'' \<and> is_digit d then digits_rest (10 * acc + digit_val d) cs
      else None)"

definition py_digits :: "string \<Rightarrow> int option" where
  "py_digits s =
     (case s of [] \<Rightarrow> None
      | c # cs \<Rightarrow> if is_digit c then digits_rest (digit_val c) cs else None)"

definition py_int :: "string \<Rightarrow> int option" where
  "py_int s =
     (let t = dropWhile py_int_isspace (rev (dropWhile py_int_isspace (rev s)))
      in if int_max_str_digits < length (filter is_digit t) then None
         else case t of
                [] \<Rightarrow> None
              | c # cs \<Rightarrow>
                  if c = CHR ''-'' then map_option uminus (py_digits cs)
                  else if c = CHR ''+'' then py_digits cs
                  else py_digits (c # cs))"

subsection \<open>Exceptions and log records\<close>

text \<open>
  The exceptions the module can raise. \<open>MakeMkvRuntimeError\<close> is represented by
  the arguments of its constructor: return code, command and output (the class
  writes the output to the debug log and keeps a message built from the return
  code).
\<close>

datatype exn =
    MakeMkvParserError string
  | MakeMkvRuntimeError int "string list" string
  | TypeError
  | ValueError
  | IndexError

text \<open>The calls \<^verbatim>\<open>logging.<level>(text)\<close> of the message checker, as data.\<close>

datatype level = Debug | Info | Warning | Error | Critical

type_synonym log_entry = "level \<times> string"

subsection \<open>Constants and enumerations\<close>

definition MAKEMKV_UNKNOWN_DRV :: int where
  "MAKEMKV_UNKNOWN_DRV = 999"

definition MAKEMKV_STREAM_CODE_TYPE_VIDEO :: int where
  "MAKEMKV_STREAM_CODE_TYPE_VIDEO = 6201"

definition SOURCE :: string where
  "SOURCE = ''MakeMKV''"

definition ERROR_MESSAGE_OPERATION_RESULT :: string where
  "ERROR_MESSAGE_OPERATION_RESULT = ''Internal error - Operation result is incorrect (132)''"

definition ERROR_MESSAGE_TRAY_OPEN :: string where
  "ERROR_MESSAGE_TRAY_OPEN = ''Scsi error - NOT READY:MEDIUM NOT PRESENT - TRAY OPEN''"

definition ERROR_MESSAGE_MEDIUM_ERROR :: string where
  "ERROR_MESSAGE_MEDIUM_ERROR = ''Scsi error - MEDIUM ERROR:L-EC UNCORRECTABLE ERROR''"

definition ERROR_MESSAGE_HARDWARE_ERROR :: string where
  "ERROR_MESSAGE_HARDWARE_ERROR = ''Scsi error - HARDWARE ERROR:441E''"

datatype OutputType = DRV | MSG | CINFO | SINFO | TCOUNT | TINFO | PRGV | PRGC | PRGT

text \<open>\<^verbatim>\<open>OutputType.__members__\<close>: the lookup of a member by its name.\<close>

definition OutputType_members :: "string \<Rightarrow> OutputType option" where
  "OutputType_members = map_of
     [(''DRV'', DRV), (''MSG'', MSG), (''CINFO'', CINFO), (''SINFO'', SINFO),
      (''TCOUNT'', TCOUNT), (''TINFO'', TINFO), (''PRGV'', PRGV), (''PRGC'', PRGC),
      (''PRGT'', PRGT)]"

datatype DriveVisible = EMPTY | OPEN | LOADED | LOADING | NOT_ATTACHED

text \<open>\<^verbatim>\<open>DriveVisible(value)\<close>; \<^verbatim>\<open>_missing_\<close> answers \<open>NOT_ATTACHED\<close>.\<close>

definition DriveVisible_of :: "int \<Rightarrow> DriveVisible" where
  "DriveVisible_of v =
     (if v = 0 then EMPTY else if v = 1 then OPEN else if v = 2 then LOADED
      else if v = 3 then LOADING else if v = 256 then NOT_ATTACHED
      else NOT_ATTACHED)"

datatype DriveType = CD | DVD | BD_TYPE1 | BD_TYPE2

text \<open>\<^verbatim>\<open>DriveType(value)\<close>; \<^verbatim>\<open>_missing_\<close> answers \<open>CD\<close>.\<close>

definition DriveType_of :: "int \<Rightarrow> DriveType" where
  "DriveType_of v =
     (if v = 0 then CD else if v = 1 then DVD else if v = 12 then BD_TYPE1
      else if v = 28 then BD_TYPE2 else CD)"

text \<open>The members of \<^verbatim>\<open>MessageID\<close> the checker names.\<close>

definition LIBMKV_TRACE :: int where "LIBMKV_TRACE = 1002"
definition READ_ERROR :: int where "READ_ERROR = 2003"
definition WRITE_ERROR :: int where "WRITE_ERROR = 2019"
definition RIP_TITLE_ERROR :: int where "RIP_TITLE_ERROR = 5003"
definition RIP_COMPLETED :: int where "RIP_COMPLETED = 5004"
definition RIP_DISC_OPEN_ERROR :: int where "RIP_DISC_OPEN_ERROR = 5010"
definition EVALUATION_PERIOD_EXPIRED_INFO :: int where "EVALUATION_PERIOD_EXPIRED_INFO = 5052"
definition EVALUATION_PERIOD_EXPIRED_SHAREWARE :: int where "EVALUATION_PERIOD_EXPIRED_SHAREWARE = 5055"
definition RIP_BACKUP_FAILED_PRE :: int where "RIP_BACKUP_FAILED_PRE = 5096"
definition RIP_BACKUP_FAILED :: int where "RIP_BACKUP_FAILED = 5080"

text \<open>\<^verbatim>\<open>StreamID\<close> and \<^verbatim>\<open>TrackID\<close>.\<close>

definition StreamID_TYPE :: int where "StreamID_TYPE = 1"
definition StreamID_ASPECT :: int where "StreamID_ASPECT = 20"
definition StreamID_FPS :: int where "StreamID_FPS = 21"
definition TrackID_DURATION :: int where "TrackID_DURATION = 9"
definition TrackID_FILENAME :: int where "TrackID_FILENAME = 27"

subsection \<open>The dataclasses\<close>

text \<open>
  One record per dataclass, a subclass as a record extension. Field names carry a
  prefix of the class, since several classes share \<^verbatim>\<open>code\<close>, \<^verbatim>\<open>count\<close>,
  \<^verbatim>\<open>flags\<close> and \<^verbatim>\<open>id\<close>. In \<open>MakeMKVMessage\<close> the field \<open>msg_sprintf\<close> holds
  what \<^verbatim>\<open>parse_line\<close> stores there: the list of the format string followed by
  the parameters.
\<close>

record MakeMKVMessage =
  msg_code :: int
  msg_flags :: int
  msg_count :: int
  msg_message :: string
  msg_sprintf :: "string list"

record MakeMKVErrorMessage = MakeMKVMessage +
  msg_error :: string

record Titles =
  titles_count :: int

record CInfo =
  ci_id :: int
  ci_code :: int
  ci_value :: string

record TInfo = CInfo +
  ti_tid :: int

record SInfo = TInfo +
  si_sid :: int

record ProgressBarValues =
  pv_current :: int
  pv_total :: int
  pv_maximum :: int

record ProgressBarTitle =
  pt_code :: int
  pt_oid :: int
  pt_name :: string

record DriveInformation =
  drv_mount :: string
  drv_disc :: string
  drv_info :: string
  drv_flags :: int
  drv_enabled :: bool
  drv_visible :: int
  drv_index :: int

record Drive = DriveInformation +
  drv_loaded :: bool
  drv_open :: bool
  drv_attached :: bool
  drv_media_cd :: bool
  drv_media_dvd :: bool
  drv_media_bd :: bool

text \<open>What \<^verbatim>\<open>parse_line\<close> returns beside the type tag: an object of one class.\<close>

datatype data =
    D_Message MakeMKVMessage
  | D_ErrorMessage MakeMKVErrorMessage
  | D_Titles Titles
  | D_CInfo CInfo
  | D_TInfo TInfo
  | D_SInfo SInfo
  | D_ProgressBarValues ProgressBarValues
  | D_ProgressBarCurrent ProgressBarTitle
  | D_ProgressBarTotal ProgressBarTitle
  | D_Drive Drive

subsection \<open>Constructors: \<^verbatim>\<open>__init__\<close> and \<^verbatim>\<open>__post_init__\<close>\<close>

text \<open>
  A constructor called with \<^verbatim>\<open>*args\<close> takes the list of the positional
  arguments; a list of the wrong length is the TypeError of the call, a field
  that \<^verbatim>\<open>int()\<close> rejects is a ValueError.
\<close>

text \<open>\<^verbatim>\<open>MakeMKVMessage(*itertools.islice(temp, 4), list(temp))\<close>: the first
  argument is what \<^verbatim>\<open>islice\<close> delivers, the second the rest of the iterator.\<close>

fun MakeMKVMessage_init :: "string list \<Rightarrow> string list \<Rightarrow> exn + MakeMKVMessage" where
  "MakeMKVMessage_init [code, flags, count, message] sprintf =
     (case (py_int code, py_int flags, py_int count) of
        (Some c, Some f, Some n) \<Rightarrow>
          Inr \<lparr>msg_code = c, msg_flags = f, msg_count = n, msg_message = message,
               msg_sprintf = sprintf\<rparr>
      | _ \<Rightarrow> Inl ValueError)"
| "MakeMKVMessage_init _ sprintf = Inl TypeError"

text \<open>\<^verbatim>\<open>MakeMKVErrorMessage(*dataclasses.astuple(data), data.message)\<close>: the
  argument \<^verbatim>\<open>error\<close> is overwritten by \<^verbatim>\<open>__post_init__\<close>.\<close>

definition MakeMKVErrorMessage_init :: "MakeMKVMessage \<Rightarrow> string \<Rightarrow> exn + MakeMKVErrorMessage" where
  "MakeMKVErrorMessage_init d error =
     (if length (msg_sprintf d) < 2 then Inl ValueError
      else Inr \<lparr>msg_code = msg_code d, msg_flags = msg_flags d, msg_count = msg_count d,
                msg_message = msg_message d, msg_sprintf = drop 2 (msg_sprintf d),
                msg_error = msg_sprintf d ! 1\<rparr>)"

fun Titles_init :: "string list \<Rightarrow> exn + Titles" where
  "Titles_init [count] =
     (case py_int count of Some n \<Rightarrow> Inr \<lparr>titles_count = n\<rparr> | None \<Rightarrow> Inl ValueError)"
| "Titles_init _ = Inl TypeError"

fun CInfo_init :: "string list \<Rightarrow> exn + CInfo" where
  "CInfo_init [i, code, val] =
     (case (py_int i, py_int code) of
        (Some i', Some c) \<Rightarrow> Inr \<lparr>ci_id = i', ci_code = c, ci_value = val\<rparr>
      | _ \<Rightarrow> Inl ValueError)"
| "CInfo_init _ = Inl TypeError"

fun TInfo_init :: "string list \<Rightarrow> exn + TInfo" where
  "TInfo_init [i, code, val, tid] =
     (case (py_int i, py_int code, py_int tid) of
        (Some i', Some c, Some t) \<Rightarrow>
          Inr \<lparr>ci_id = i', ci_code = c, ci_value = val, ti_tid = t\<rparr>
      | _ \<Rightarrow> Inl ValueError)"
| "TInfo_init _ = Inl TypeError"

fun SInfo_init :: "string list \<Rightarrow> exn + SInfo" where
  "SInfo_init [i, code, val, tid, sid] =
     (case (py_int i, py_int code, py_int tid, py_int sid) of
        (Some i', Some c, Some t, Some s) \<Rightarrow>
          Inr \<lparr>ci_id = i', ci_code = c, ci_value = val, ti_tid = t, si_sid = s\<rparr>
      | _ \<Rightarrow> Inl ValueError)"
| "SInfo_init _ = Inl TypeError"

fun ProgressBarValues_init :: "string list \<Rightarrow> exn + ProgressBarValues" where
  "ProgressBarValues_init [current, total', maximum] =
     (case (py_int current, py_int total', py_int maximum) of
        (Some c, Some t, Some m) \<Rightarrow> Inr \<lparr>pv_current = c, pv_total = t, pv_maximum = m\<rparr>
      | _ \<Rightarrow> Inl ValueError)"
| "ProgressBarValues_init _ = Inl TypeError"

fun ProgressBarTitle_init :: "string list \<Rightarrow> exn + ProgressBarTitle" where
  "ProgressBarTitle_init [code, oid, name] =
     (case (py_int code, py_int oid) of
        (Some c, Some i) \<Rightarrow> Inr \<lparr>pt_code = c, pt_oid = i, pt_name = name\<rparr>
      | _ \<Rightarrow> Inl ValueError)"
| "ProgressBarTitle_init _ = Inl TypeError"

text \<open>
  \<^verbatim>\<open>Drive.__post_init__\<close> after the conversions of \<^verbatim>\<open>DriveInformation\<close>:
  the dataclass defaults, then the two chains on the drive type and on the
  visibility.
\<close>

definition Drive_post_init :: "DriveInformation \<Rightarrow> Drive" where
  "Drive_post_init i =
     (let d0 = \<lparr>drv_mount = drv_mount i, drv_disc = drv_disc i, drv_info = drv_info i,
                drv_flags = drv_flags i, drv_enabled = drv_enabled i,
                drv_visible = drv_visible i, drv_index = drv_index i,
                drv_loaded = False, drv_open = False, drv_attached = True,
                drv_media_cd = False, drv_media_dvd = False, drv_media_bd = False\<rparr>;
          d1 = (case DriveType_of (drv_flags i) of
                  CD \<Rightarrow> d0\<lparr>drv_media_cd := True\<rparr>
                | DVD \<Rightarrow> d0\<lparr>drv_media_dvd := True\<rparr>
                | BD_TYPE1 \<Rightarrow> d0\<lparr>drv_media_bd := True\<rparr>
                | BD_TYPE2 \<Rightarrow> d0\<lparr>drv_media_bd := True\<rparr>)
      in case DriveVisible_of (drv_visible i) of
           EMPTY \<Rightarrow> d1\<lparr>drv_loaded := False\<rparr>
         | OPEN \<Rightarrow> d1\<lparr>drv_open := True\<rparr>
         | LOADED \<Rightarrow> d1\<lparr>drv_loaded := True\<rparr>
         | LOADING \<Rightarrow> d1\<lparr>drv_loaded := True\<rparr>
         | NOT_ATTACHED \<Rightarrow> d1\<lparr>drv_attached := False\<rparr>)"

fun Drive_init :: "string list \<Rightarrow> exn + Drive" where
  "Drive_init [mount, disc, info, flags, enabled, visible, index] =
     (case (py_int flags, py_int enabled, py_int visible, py_int index) of
        (Some f, Some e, Some v, Some i) \<Rightarrow>
          Inr (Drive_post_init
                 \<lparr>drv_mount = mount, drv_disc = disc, drv_info = info, drv_flags = f,
                  drv_enabled = (e = MAKEMKV_UNKNOWN_DRV), drv_visible = v,
                  drv_index = i\<rparr>)
      | _ \<Rightarrow> Inl ValueError)"
| "Drive_init _ = Inl TypeError"


subsection \<open>The field tokenizer\<close>

definition parse_content :: "string \<Rightarrow> int \<Rightarrow> int \<Rightarrow> string list" where
  "parse_content content num_header num_message =
     (let header = py_split '','' num_header content;
          message = py_split ''\",\"'' num_message (last header)
      in butlast header @ map (py_strip ''\"'') message)"

subsection \<open>The message checker\<close>

text \<open>
  Each method returns the log records it writes, in order, and its result. The
  tables hold the level of the logging function they name.
\<close>

definition READ_ERROR_MAP :: "(string \<times> level \<times> string) list" where
  "READ_ERROR_MAP =
     [(ERROR_MESSAGE_OPERATION_RESULT,
         (Critical, ''error possibly fatal, creating zombie processes'')),
      (ERROR_MESSAGE_TRAY_OPEN, (Info, ''error mostly non fatal'')),
      (ERROR_MESSAGE_MEDIUM_ERROR,
         (Critical, ''error possibly fatal, medium removed during mkv backup'')),
      (ERROR_MESSAGE_HARDWARE_ERROR,
         (Critical, ''error possibly fatal, medium removed during mkv backup''))]"

definition LOG_ONLY_CODES :: "(int \<times> level) list" where
  "LOG_ONLY_CODES =
     [(RIP_DISC_OPEN_ERROR, Info), (RIP_TITLE_ERROR, Warning), (RIP_COMPLETED, Info),
      (LIBMKV_TRACE, Warning), (RIP_BACKUP_FAILED_PRE, Warning),
      (EVALUATION_PERIOD_EXPIRED_INFO, Warning)]"

definition SPECIAL_ERROR_CODES :: "int list" where
  "SPECIAL_ERROR_CODES = [EVALUATION_PERIOD_EXPIRED_SHAREWARE, RIP_BACKUP_FAILED]"

text \<open>The common last line of the three error methods.\<close>

definition as_error_message :: "MakeMKVMessage \<Rightarrow> exn + data" where
  "as_error_message d =
     (case MakeMKVErrorMessage_init d (msg_message d) of
        Inl e \<Rightarrow> Inl e
      | Inr m \<Rightarrow> Inr (D_ErrorMessage m))"

definition read_error :: "MakeMKVMessage \<Rightarrow> log_entry list \<times> (exn + data)" where
  "read_error d =
     (if length (msg_sprintf d) < 2 then ([], Inl IndexError)
      else
        let error_msg = msg_sprintf d ! 1;
            (log_func, debug_msg) =
               (case map_of READ_ERROR_MAP error_msg of
                  Some (f, m) \<Rightarrow> (f, Some m)
                | None \<Rightarrow> (Warning, None));
            noted = (case debug_msg of None \<Rightarrow> False | Some m \<Rightarrow> m \<noteq> []);
            debug_log = (case debug_msg of
                           None \<Rightarrow> []
                         | Some m \<Rightarrow> if m \<noteq> [] then [(Debug, m)] else []);
            log_message = (if noted then msg_message d else error_msg)
        in (debug_log @ [(log_func, log_message)], as_error_message d))"

definition write_error :: "MakeMKVMessage \<Rightarrow> log_entry list \<times> (exn + data)" where
  "write_error d =
     (if length (msg_sprintf d) < 2 then ([], Inl IndexError)
      else
        let error_msg = msg_sprintf d ! 1
        in ((if error_msg = ''Posix error - No such file or directory''
             then [(Critical, msg_message d)] else [(Warning, error_msg)]),
            as_error_message d))"

definition special_error_code :: "MakeMKVMessage \<Rightarrow> log_entry list \<times> (exn + data)" where
  "special_error_code d = ([], as_error_message d)"

definition log_only_code :: "MakeMKVMessage \<Rightarrow> log_entry list \<times> (exn + data)" where
  "log_only_code d =
     (case map_of LOG_ONLY_CODES (msg_code d) of
        None \<Rightarrow> ([], Inl ValueError)
      | Some log_func \<Rightarrow> ([(log_func, msg_message d)], Inr (D_Message d)))"

text \<open>\<open>log_only_code\<close> is only called on a key of the table (the lookup
  \<^verbatim>\<open>LOG_ONLY_CODES[code]\<close> cannot miss).\<close>

definition check :: "MakeMKVMessage \<Rightarrow> log_entry list \<times> (exn + data)" where
  "check d =
     (let code = msg_code d
      in if code = READ_ERROR then read_error d
         else if code = WRITE_ERROR then write_error d
         else if code \<in> set SPECIAL_ERROR_CODES then special_error_code d
         else if code \<in> set (map fst LOG_ONLY_CODES) then log_only_code d
         else ([], Inr (D_Message d)))"

subsection \<open>The record decoder\<close>

text \<open>The branch of \<^verbatim>\<open>parse_line\<close> for one type tag, without the logs.\<close>

definition lift_data :: "('a \<Rightarrow> data) \<Rightarrow> exn + 'a \<Rightarrow> log_entry list \<times> (exn + data)" where
  "lift_data con r = ([], case r of Inl e \<Rightarrow> Inl e | Inr x \<Rightarrow> Inr (con x))"

definition decode :: "OutputType \<Rightarrow> string \<Rightarrow> log_entry list \<times> (exn + data)" where
  "decode msg_type content =
     (case msg_type of
        MSG \<Rightarrow>
          (let temp = parse_content content 3 (- 1)
           in case MakeMKVMessage_init (take 4 temp) (drop 4 temp) of
                Inl e \<Rightarrow> ([], Inl e)
              | Inr d \<Rightarrow> check d)
      | PRGV \<Rightarrow> lift_data D_ProgressBarValues (ProgressBarValues_init (parse_content content 2 0))
      | PRGC \<Rightarrow> lift_data D_ProgressBarCurrent (ProgressBarTitle_init (parse_content content 2 0))
      | PRGT \<Rightarrow> lift_data D_ProgressBarTotal (ProgressBarTitle_init (parse_content content 2 0))
      | SINFO \<Rightarrow>
          (case parse_content content 4 0 of
             tid # sid # info \<Rightarrow> lift_data D_SInfo (SInfo_init (info @ [tid, sid]))
           | _ \<Rightarrow> ([], Inl ValueError))
      | TINFO \<Rightarrow>
          (case parse_content content 3 0 of
             tid # info \<Rightarrow> lift_data D_TInfo (TInfo_init (info @ [tid]))
           | _ \<Rightarrow> ([], Inl ValueError))
      | CINFO \<Rightarrow> lift_data D_CInfo (CInfo_init (parse_content content 2 0))
      | DRV \<Rightarrow> lift_data D_Drive (Drive_init (rev (parse_content content 4 2)))
      | TCOUNT \<Rightarrow> lift_data D_Titles (Titles_init (parse_content content 0 0)))"

definition parse_line :: "string \<Rightarrow> log_entry list \<times> (exn + OutputType \<times> data)" where
  "parse_line line =
     (if CHR '':'' \<notin> set line
      then ([], Inl (MakeMkvParserError ''No Message Type Detected''))
      else case py_split '':'' 1 line of
             [msg_type, content] \<Rightarrow>
               (case OutputType_members msg_type of
                  None \<Rightarrow>
                    ([], Inl (MakeMkvParserError
                           (''Cannot parse '' @ [CHR 0x27] @ msg_type @ [CHR 0x27] @ '':''
                            @ [CHR 0x27] @ content @ [CHR 0x27])))
                | Some t \<Rightarrow>
                    (case decode t content of
                       (logs, Inl e) \<Rightarrow> (logs, Inl e)
                     | (logs, Inr message) \<Rightarrow> (logs, Inr (t, message))))
           | _ \<Rightarrow> ([], Inl ValueError))"

subsection \<open>The stream runner\<close>

text \<open>
  The child process is given by what it does: the lines it writes to its
  standard output, each with its terminator, and its exit status.
  \<^verbatim>\<open>Popen.returncode\<close> is \<open>None\<close> until the process has been waited for,
  which happens when the \<^verbatim>\<open>with\<close> block is left; the loop over the lines is
  given the value it reads there. The generator's output is the list of the
  records it yields, followed by the exception that ends it, if any. The trace
  calls of \<^verbatim>\<open>run\<close> to the log are not modelled.
\<close>

definition os_linesep :: string where
  "os_linesep = [CHR 0x0A]"

definition truthy_int :: "int option \<Rightarrow> bool" where
  "truthy_int r = (case r of None \<Rightarrow> False | Some n \<Rightarrow> n \<noteq> 0)"

fun run_loop :: "int option \<Rightarrow> OutputType set \<Rightarrow> string list \<Rightarrow> string list
    \<Rightarrow> data list \<times> string list \<times> exn option" where
  "run_loop returncode select buffer [] = ([], buffer, None)"
| "run_loop returncode select buffer (raw # rest) =
     (let line = py_rstrip os_linesep raw
      in if truthy_int returncode then run_loop returncode select (buffer @ [line]) rest
         else case snd (parse_line line) of
                Inl (MakeMkvParserError err) \<Rightarrow>
                  run_loop returncode select (buffer @ [line]) rest
              | Inl e \<Rightarrow> ([], buffer, Some e)
              | Inr (msg_type, d) \<Rightarrow>
                  (case run_loop returncode select buffer rest of
                     (ys, buffer', r) \<Rightarrow>
                       ((if msg_type \<in> select then [d] else []) @ ys, buffer', r)))"

record process =
  stdout :: "string list"
  exit_status :: int

text \<open>\<open>which\<close> is the answer of \<^verbatim>\<open>shutil.which("makemkvcon")\<close>.\<close>

definition makemkvcon_path :: "string option \<Rightarrow> string" where
  "makemkvcon_path which =
     (case which of
        None \<Rightarrow> ''/usr/local/bin/makemkvcon''
      | Some p \<Rightarrow> if p = [] then ''/usr/local/bin/makemkvcon'' else p)"

definition run :: "string option \<Rightarrow> process \<Rightarrow> string list \<Rightarrow> OutputType set
    \<Rightarrow> data list \<times> exn option" where
  "run which proc options select =
     (let cmd = [makemkvcon_path which, ''--robot'', ''--messages=-stdout''] @ options
      in case run_loop None select [] (stdout proc) of
           (ys, buffer, Some e) \<Rightarrow> (ys, Some e)
         | (ys, buffer, None) \<Rightarrow>
             if exit_status proc \<noteq> 0
             then (ys, Some (MakeMkvRuntimeError (exit_status proc) cmd
                               (py_join os_linesep buffer)))
             else if buffer \<noteq> []
             then (ys, Some (MakeMkvRuntimeError (exit_status proc) cmd
                               (py_join os_linesep buffer)))
             else (ys, None))"


subsection \<open>The info query and its throttle\<close>

text \<open>
  What the info query does to the world around it, in order: the job status it
  stores, the pauses it takes and the process counts it reads.
\<close>

datatype JobState = VIDEO_WAITING | VIDEO_INFO | VIDEO_RIPPING

datatype sleep_arg = Sleep_range int int int | Sleep_for int

datatype effect =
    Set_status JobState
  | Sleep sleep_arg
  | Polled nat

text \<open>
  Modelled from the spec: \<^verbatim>\<open>utils.sleep_check_process\<close> is called by
  \<^verbatim>\<open>makemkv_info\<close> and is not part of the source at hand. The spec (4.6): poll
  the count of currently running external-tool processes at a fixed interval;
  block until the count is at or below a configured ceiling; a ceiling of 0
  disables throttling entirely. The counts the polls will read are given as a
  list; the result is the effects and the counts left unread, and \<open>None\<close> when
  the wait is still blocked after the last count.
\<close>

fun poll_until :: "int \<Rightarrow> sleep_arg \<Rightarrow> nat list \<Rightarrow> (effect list \<times> nat list) option" where
  "poll_until max_processes sl [] = None"
| "poll_until max_processes sl (c # cs) =
     (if int c \<le> max_processes then Some ([Polled c], cs)
      else case poll_until max_processes sl cs of
             None \<Rightarrow> None
           | Some (es, rest) \<Rightarrow> Some (Polled c # Sleep sl # es, rest))"

definition sleep_check_process :: "int \<Rightarrow> sleep_arg \<Rightarrow> nat list
    \<Rightarrow> (effect list \<times> nat list) option" where
  "sleep_check_process max_processes sl counts =
     (if max_processes = 0 then Some ([], counts) else poll_until max_processes sl counts)"

text \<open>\<^verbatim>\<open>f"{n:d}"\<close>.\<close>

fun str_of_nat :: "nat \<Rightarrow> string" where
  "str_of_nat n =
     (if n < 10 then [char_of (48 + n)]
      else str_of_nat (n div 10) @ [char_of (48 + n mod 10)])"

declare str_of_nat.simps [simp del]

definition str_of_int :: "int \<Rightarrow> string" where
  "str_of_int i = (if i < 0 then CHR ''-'' # str_of_nat (nat (- i)) else str_of_nat (nat i))"

record config =
  MANUAL_WAIT_TIME :: int
  MAX_CONCURRENT_MAKEMKVINFO :: int

record world =
  which :: "string option"
  counts :: "nat list"
  proc :: process

text \<open>
  \<^verbatim>\<open>makemkv_info\<close>: the wait before the query, the query, and the
  \<^verbatim>\<open>finally\<close> block, which runs whether or not the query raised. The result
  is \<open>None\<close> when one of the two waits never returns.
\<close>

definition makemkv_info :: "config \<Rightarrow> world \<Rightarrow> OutputType set \<Rightarrow> int \<Rightarrow> string list
    \<Rightarrow> (effect list \<times> data list \<times> exn option) option" where
  "makemkv_info cfg w select index options =
     (let info_options = [''info'', ''--cache=1''] @ options @ [''disc:'' @ str_of_int index];
          wait_time = MANUAL_WAIT_TIME cfg;
          max_processes = MAX_CONCURRENT_MAKEMKVINFO cfg
      in case sleep_check_process max_processes (Sleep_range 10 wait_time 10) (counts w) of
           None \<Rightarrow> None
         | Some (before, counts1) \<Rightarrow>
             (case run (which w) (proc w) info_options select of
                (ys, r) \<Rightarrow>
                  (case sleep_check_process max_processes (Sleep_for wait_time) counts1 of
                     None \<Rightarrow> None
                   | Some (after, counts2) \<Rightarrow>
                       Some ([Set_status VIDEO_WAITING] @ before @ [Set_status VIDEO_INFO]
                             @ [Set_status VIDEO_WAITING]
                             @ (if max_processes \<noteq> 0 then [Sleep (Sleep_for wait_time)] else [])
                             @ after @ [Set_status VIDEO_RIPPING],
                             ys, r))))"

subsection \<open>The track aggregator\<close>

text \<open>
  Python's \<^verbatim>\<open>float\<close> is kept abstract: the type \<open>'f\<close> of floats with the three
  operations the aggregator uses, \<^verbatim>\<open>float(s)\<close> (\<open>None\<close> for the ValueError),
  the literal \<^verbatim>\<open>0.0\<close> and \<^verbatim>\<open>str(x)\<close>.
\<close>

record 'f float_ops =
  float_of :: "string \<Rightarrow> 'f option"
  float_zero :: 'f
  float_str :: "'f \<Rightarrow> string"

text \<open>The state variables of \<^verbatim>\<open>TrackInfoProcessor\<close> (the job and the disc
  index, which never change, are arguments of the query).\<close>

record 'f TrackInfoProcessor =
  track_id :: "int option"
  seconds :: int
  aspect :: string
  fps :: 'f
  filename :: string
  stream_type :: "int option"

definition TrackInfoProcessor_init :: "'f float_ops \<Rightarrow> 'f TrackInfoProcessor" where
  "TrackInfoProcessor_init F =
     \<lparr>track_id = None, seconds = 0, aspect = [], fps = float_zero F, filename = [],
      stream_type = None\<rparr>"

text \<open>The calls to the two collaborators, \<^verbatim>\<open>utils.put_track\<close> (without the
  job) and \<^verbatim>\<open>utils.database_updater\<close>, as data.\<close>

datatype sink =
    Put_track (put_track_id: int) (put_seconds: int) (put_aspect: string) (put_fps: string)
      (put_forced: bool) (put_source: string) (put_filename: string)
  | Database_updater int

definition convert_to_seconds :: "string \<Rightarrow> exn + int" where
  "convert_to_seconds hms_value =
     (case py_split '':'' (- 1) hms_value of
        [hour, mins, secs] \<Rightarrow>
          (case (py_int hour, py_int mins, py_int secs) of
             (Some h, Some m, Some s) \<Rightarrow> Inr (h * 3600 + m * 60 + s)
           | _ \<Rightarrow> Inl ValueError)
      | _ \<Rightarrow> Inl ValueError)"

definition add_track :: "'f float_ops \<Rightarrow> 'f TrackInfoProcessor
    \<Rightarrow> sink list \<times> 'f TrackInfoProcessor" where
  "add_track F s =
     (case track_id s of
        None \<Rightarrow> ([], s)
      | Some t \<Rightarrow>
          ([Put_track t (seconds s) (aspect s) (float_str F (fps s)) False SOURCE (filename s)],
           s\<lparr>seconds := 0, aspect := [], fps := float_zero F, filename := []\<rparr>))"

definition handle_sinfo :: "'f float_ops \<Rightarrow> 'f TrackInfoProcessor \<Rightarrow> SInfo
    \<Rightarrow> exn + 'f TrackInfoProcessor" where
  "handle_sinfo F s m =
     (if ci_id m = StreamID_TYPE then Inr (s\<lparr>stream_type := Some (ci_code m)\<rparr>)
      else if stream_type s = Some MAKEMKV_STREAM_CODE_TYPE_VIDEO then
        (if ci_id m = StreamID_ASPECT then Inr (s\<lparr>aspect := py_strip_ws (ci_value m)\<rparr>)
         else if ci_id m = StreamID_FPS then
           (case py_words (ci_value m) of
              [] \<Rightarrow> Inl IndexError
            | w # ws \<Rightarrow>
                (case float_of F w of
                   None \<Rightarrow> Inl ValueError
                 | Some x \<Rightarrow> Inr (s\<lparr>fps := x\<rparr>)))
         else Inr s)
      else Inr s)"

text \<open>\<^verbatim>\<open>xs[1::2]\<close>.\<close>

fun odd_items :: "'a list \<Rightarrow> 'a list" where
  "odd_items (x # y # zs) = y # odd_items zs"
| "odd_items _ = []"

definition handle_tinfo :: "'f TrackInfoProcessor \<Rightarrow> TInfo \<Rightarrow> exn + 'f TrackInfoProcessor" where
  "handle_tinfo s m =
     (if ci_id m = TrackID_FILENAME then
        Inr (s\<lparr>filename :=
                 (case odd_items (py_split ''\"'' (- 1) (ci_value m)) of
                    [] \<Rightarrow> ci_value m
                  | f # fs \<Rightarrow> f)\<rparr>)
      else if ci_id m = TrackID_DURATION then
        (case convert_to_seconds (py_strip_ws (ci_value m)) of
           Inl e \<Rightarrow> Inl e
         | Inr n \<Rightarrow> Inr (s\<lparr>seconds := n\<rparr>))
      else Inr s)"

text \<open>
  \<^verbatim>\<open>_handle_track_or_stream_info\<close> with the title id of the message and the
  handler its class selects. A track committed before the handler raises stays
  committed.
\<close>

definition handle_track_or_stream_info :: "'f float_ops \<Rightarrow> 'f TrackInfoProcessor \<Rightarrow> int
    \<Rightarrow> ('f TrackInfoProcessor \<Rightarrow> exn + 'f TrackInfoProcessor)
    \<Rightarrow> sink list \<times> (exn + 'f TrackInfoProcessor)" where
  "handle_track_or_stream_info F s tid handler =
     (case (if track_id s \<noteq> None \<and> Some tid \<noteq> track_id s then add_track F s else ([], s)) of
        (out, s1) \<Rightarrow> (out, handler (s1\<lparr>track_id := Some tid\<rparr>)))"

definition process_message :: "'f float_ops \<Rightarrow> 'f TrackInfoProcessor \<Rightarrow> data
    \<Rightarrow> sink list \<times> (exn + 'f TrackInfoProcessor)" where
  "process_message F s message =
     (case message of
        D_SInfo m \<Rightarrow> handle_track_or_stream_info F s (ti_tid m) (\<lambda>s'. handle_sinfo F s' m)
      | D_TInfo m \<Rightarrow> handle_track_or_stream_info F s (ti_tid m) (\<lambda>s'. handle_tinfo s' m)
      | D_Titles m \<Rightarrow> ([Database_updater (titles_count m)], Inr s)
      | _ \<Rightarrow> ([], Inr s))"

text \<open>The loop of \<^verbatim>\<open>process_messages\<close> over the records of the query.\<close>

fun feed :: "'f float_ops \<Rightarrow> 'f TrackInfoProcessor \<Rightarrow> data list
    \<Rightarrow> sink list \<times> (exn + 'f TrackInfoProcessor)" where
  "feed F s [] = ([], Inr s)"
| "feed F s (m # ms) =
     (case process_message F s m of
        (out, Inl e) \<Rightarrow> (out, Inl e)
      | (out, Inr s') \<Rightarrow> (case feed F s' ms of (out', r) \<Rightarrow> (out @ out', r)))"

text \<open>
  \<^verbatim>\<open>process_messages\<close> on what the query delivers: its records and the
  exception that ended it, if any. The last track is added only when neither the
  query nor a handler raised.
\<close>

definition process_messages :: "'f float_ops \<Rightarrow> data list \<times> exn option
    \<Rightarrow> sink list \<times> exn option" where
  "process_messages F q =
     (case feed F (TrackInfoProcessor_init F) (fst q) of
        (out, Inl e) \<Rightarrow> (out, Some e)
      | (out, Inr s) \<Rightarrow>
          (case snd q of
             Some e \<Rightarrow> (out, Some e)
           | None \<Rightarrow> (out @ fst (add_track F s), None)))"

definition get_track_info :: "'f float_ops \<Rightarrow> config \<Rightarrow> world \<Rightarrow> int
    \<Rightarrow> (effect list \<times> sink list \<times> exn option) option" where
  "get_track_info F cfg w index =
     (case makemkv_info cfg w {CINFO, SINFO, TCOUNT, TINFO} index [] of
        None \<Rightarrow> None
      | Some (es, ys, r) \<Rightarrow> Some (es, process_messages F (ys, r)))"


subsection \<open>Readings of the specification\<close>

text \<open>
  The docstring of \<^verbatim>\<open>MakeMKVMessage\<close> gives the wire format
  \<^verbatim>\<open>MSG:code,flags,count,message,format,param0,param1,...\<close>: the parameters
  of a message are the entries of \<open>msg_sprintf\<close> after the format string.
\<close>

definition params :: "MakeMKVMessage \<Rightarrow> string list" where
  "params d = drop 1 (msg_sprintf d)"

text \<open>
  The tokenizer as the specification words it: split on commas at most
  \<open>fixed_field_count\<close> times from the left, split the tail on the quote-comma-quote
  sequence at most \<open>quoted_field_count\<close> times, strip one leading and one
  trailing double quote from each piece of the tail. It is compared with
  \<open>parse_content\<close> below.
\<close>

definition strip_one_quote :: "string \<Rightarrow> string" where
  "strip_one_quote s =
     (let s1 = (case s of [] \<Rightarrow> [] | c # cs \<Rightarrow> if c = CHR 0x22 then cs else s)
      in if s1 \<noteq> [] \<and> last s1 = CHR 0x22 then butlast s1 else s1)"

definition tokenizer_spec :: "string \<Rightarrow> nat \<Rightarrow> nat \<Rightarrow> string list" where
  "tokenizer_spec payload fixed_field_count quoted_field_count =
     (let header = py_split '','' (int fixed_field_count) payload;
          pieces = py_split ''\",\"'' (int quoted_field_count) (last header)
      in butlast header @ map strip_one_quote pieces)"


text \<open>
  Words for the properties of the aggregator: the title a record belongs to;
  whether a record is a \<open>TInfo\<close> of title \<open>t\<close> carrying the file name or the
  duration; and whether the value of a record can be read where the aggregator
  reads a number (the duration of a \<open>TInfo\<close> by \<open>convert_to_seconds\<close>, the first
  word of the frame rate of an \<open>SInfo\<close> by \<^verbatim>\<open>float\<close>).
\<close>

definition title_of :: "data \<Rightarrow> int option" where
  "title_of message =
     (case message of
        D_TInfo m \<Rightarrow> Some (ti_tid m)
      | D_SInfo m \<Rightarrow> Some (ti_tid m)
      | _ \<Rightarrow> None)"

definition names_or_times :: "int \<Rightarrow> data \<Rightarrow> bool" where
  "names_or_times t message =
     (case message of
        D_TInfo m \<Rightarrow>
          ti_tid m = t \<and> (ci_id m = TrackID_FILENAME \<or> ci_id m = TrackID_DURATION)
      | _ \<Rightarrow> False)"

definition readable_values :: "'f float_ops \<Rightarrow> data \<Rightarrow> bool" where
  "readable_values F message =
     (case message of
        D_TInfo m \<Rightarrow>
          ci_id m = TrackID_DURATION \<longrightarrow>
            (\<exists>n. convert_to_seconds (py_strip_ws (ci_value m)) = Inr n)
      | D_SInfo m \<Rightarrow>
          ci_id m = StreamID_FPS \<longrightarrow>
            (case py_words (ci_value m) of
               [] \<Rightarrow> False
             | w # ws \<Rightarrow> float_of F w \<noteq> None)
      | _ \<Rightarrow> True)"

section \<open>Properties\<close>

subsection \<open>Splitting and stripping\<close>

lemma find_sep_decomp:
  "find_sep sep s = Some (a, b) \<Longrightarrow> s = a @ sep @ b"
proof (induction s arbitrary: a b)
  case Nil
  then show ?case by (auto split: if_splits)
next
  case (Cons c cs)
  show ?case
  proof (cases "take (length sep) (c # cs) = sep")
    case True
    with Cons.prems have "a = []" "b = drop (length sep) (c # cs)" by auto
    with True show ?thesis by (metis append_Nil append_take_drop_id)
  next
    case False
    with Cons.prems obtain a' where a': "find_sep sep cs = Some (a', b)" "a = c # a'"
      by (auto split: option.splits)
    from Cons.IH [OF a'(1)] a'(2) show ?thesis by simp
  qed
qed

lemma find_sep_prefix_free:
  "find_sep sep s = Some (a, b) \<Longrightarrow> sep \<noteq> [] \<Longrightarrow> find_sep sep a = None"
proof (induction s arbitrary: a b)
  case Nil
  then show ?case by (auto split: if_splits)
next
  case (Cons c cs)
  show ?case
  proof (cases "take (length sep) (c # cs) = sep")
    case True
    with Cons.prems show ?thesis by auto
  next
    case False
    with Cons.prems obtain a' where a': "find_sep sep cs = Some (a', b)" "a = c # a'"
      by (auto split: option.splits)
    have cs: "cs = a' @ sep @ b" using find_sep_decomp [OF a'(1)] .
    have "take (length sep) (c # a') \<noteq> sep"
    proof
      assume t: "take (length sep) (c # a') = sep"
      then have "length (take (length sep) (c # a')) = length sep" by simp
      then have "length sep \<le> length (c # a')" by simp
      then have "take (length sep) (c # cs) = take (length sep) (c # a')"
        using cs take_append [of "length sep" "c # a'" "sep @ b"] by simp
      with t False show False by simp
    qed
    moreover have "find_sep sep a' = None" using Cons.IH [OF a'(1) Cons.prems(2)] .
    ultimately show ?thesis using a'(2) by simp
  qed
qed

lemma py_split_nonempty: "py_split sep k s \<noteq> []"
  by (subst py_split.simps) (auto split: option.splits)

lemma py_join_Cons: "xs \<noteq> [] \<Longrightarrow> py_join sep (x # xs) = x @ sep @ py_join sep xs"
  by (cases xs) auto

lemma py_join_split: "py_join sep (py_split sep k s) = s"
proof (induction sep k s rule: py_split.induct)
  case (1 sep k s)
  show ?case
  proof (cases "sep = [] \<or> k = 0")
    case True
    then show ?thesis by (subst py_split.simps) simp
  next
    case False
    show ?thesis
    proof (cases "find_sep sep s")
      case None
      with False show ?thesis by (subst py_split.simps) simp
    next
      case (Some p)
      obtain a b where p: "p = (a, b)" by (cases p)
      have ih: "py_join sep (py_split sep (k - 1) b) = b"
        using "1.IH" [OF False Some [unfolded p] refl] .
      have "py_split sep k s = a # py_split sep (k - 1) b"
        using False Some p by (subst py_split.simps) simp
      then show ?thesis
        using ih find_sep_decomp [OF Some [unfolded p]]
        by (simp add: py_join_Cons py_split_nonempty)
    qed
  qed
qed

lemma py_split_length: "0 \<le> k \<Longrightarrow> length (py_split sep k s) \<le> nat k + 1"
proof (induction sep k s rule: py_split.induct)
  case (1 sep k s)
  show ?case
  proof (cases "sep = [] \<or> k = 0")
    case True
    then show ?thesis by (subst py_split.simps) simp
  next
    case False
    show ?thesis
    proof (cases "find_sep sep s")
      case None
      with False show ?thesis by (subst py_split.simps) simp
    next
      case (Some p)
      obtain a b where p: "p = (a, b)" by (cases p)
      from False "1.prems" have k: "0 \<le> k - 1" by simp
      have ih: "length (py_split sep (k - 1) b) \<le> nat (k - 1) + 1"
        using "1.IH" [OF False Some [unfolded p] refl k] .
      have "py_split sep k s = a # py_split sep (k - 1) b"
        using False Some p by (subst py_split.simps) simp
      then show ?thesis using ih k by simp
    qed
  qed
qed

lemma py_split_butlast_free:
  "sep \<noteq> [] \<Longrightarrow> p \<in> set (butlast (py_split sep k s)) \<Longrightarrow> find_sep sep p = None"
proof (induction sep k s rule: py_split.induct)
  case (1 sep k s)
  show ?case
  proof (cases "k = 0")
    case True
    with "1.prems" show ?thesis by (subst (asm) py_split.simps) simp
  next
    case False
    show ?thesis
    proof (cases "find_sep sep s")
      case None
      with "1.prems" False show ?thesis by (subst (asm) py_split.simps) simp
    next
      case (Some q)
      obtain a b where q: "q = (a, b)" by (cases q)
      have c: "\<not> (sep = [] \<or> k = 0)" using False "1.prems"(1) by simp
      have eq: "py_split sep k s = a # py_split sep (k - 1) b"
        using c Some q by (subst py_split.simps) simp
      with "1.prems"(2) have "p = a \<or> p \<in> set (butlast (py_split sep (k - 1) b))"
        by (simp add: py_split_nonempty)
      then show ?thesis
      proof
        assume "p = a"
        then show ?thesis using find_sep_prefix_free [OF Some [unfolded q] "1.prems"(1)] by simp
      next
        assume "p \<in> set (butlast (py_split sep (k - 1) b))"
        then show ?thesis using "1.IH" [OF c Some [unfolded q] refl "1.prems"(1)] by simp
      qed
    qed
  qed
qed

lemma py_split_last_free:
  "sep \<noteq> [] \<Longrightarrow> k < 0 \<or> length (py_split sep k s) < nat k + 1
     \<Longrightarrow> find_sep sep (last (py_split sep k s)) = None"
proof (induction sep k s rule: py_split.induct)
  case (1 sep k s)
  show ?case
  proof (cases "k = 0")
    case True
    with "1.prems" show ?thesis by (subst (asm) py_split.simps) simp
  next
    case False
    show ?thesis
    proof (cases "find_sep sep s")
      case None
      with "1.prems" False show ?thesis by (subst py_split.simps) simp
    next
      case (Some q)
      obtain a b where q: "q = (a, b)" by (cases q)
      have c: "\<not> (sep = [] \<or> k = 0)" using False "1.prems"(1) by simp
      have eq: "py_split sep k s = a # py_split sep (k - 1) b"
        using c Some q by (subst py_split.simps) simp
      have "k - 1 < 0 \<or> length (py_split sep (k - 1) b) < nat (k - 1) + 1"
        using "1.prems"(2) eq False by auto
      from "1.IH" [OF c Some [unfolded q] refl "1.prems"(1) this]
      show ?thesis using eq by (simp add: py_split_nonempty)
    qed
  qed
qed


lemma find_sep_char: "find_sep [c] s = None \<longleftrightarrow> c \<notin> set s"
  by (induction s) (auto split: option.splits)

lemma py_strip_quotes_shape:
  "\<exists>i j. p = replicate i q @ py_strip [q] p @ replicate j q"
proof -
  let ?P = "\<lambda>c. c \<in> set [q]"
  let ?r = "rev (dropWhile ?P (rev p))"
  have 1: "p = ?r @ rev (takeWhile ?P (rev p))"
    by (metis rev_append rev_rev_ident takeWhile_dropWhile_id)
  have 2: "?r = takeWhile ?P ?r @ py_strip [q] p"
    by (simp add: py_strip_def py_rstrip_def)
  have 3: "\<And>xs. takeWhile ?P xs = replicate (length (takeWhile ?P xs)) q"
    by (metis (mono_tags, lifting) replicate_length_same set_takeWhileD empty_iff insert_iff list.set(1) list.set(2))
  have 4: "rev (takeWhile ?P (rev p)) = replicate (length (takeWhile ?P (rev p))) q"
    using 3 [of "rev p"] by (metis rev_replicate)
  show ?thesis using 1 2 3 [of ?r] 4 by (metis append.assoc)
qed

lemma py_strip_quotes_ends:
  assumes "py_strip [q] p \<noteq> []"
  shows "hd (py_strip [q] p) \<noteq> q" and "last (py_strip [q] p) \<noteq> q"
proof -
  let ?P = "\<lambda>c. c \<in> set [q]"
  let ?d = "dropWhile ?P (rev p)"
  have "dropWhile ?P (rev ?d) \<noteq> []"
    using assms by (simp add: py_strip_def py_rstrip_def)
  then have "rev ?d \<noteq> []" by (metis dropWhile.simps(1))
  then have ne: "?d \<noteq> []" by simp
  show "hd (py_strip [q] p) \<noteq> q"
    using assms hd_dropWhile [of ?P "rev ?d"] by (simp add: py_strip_def py_rstrip_def)
  have "last (py_strip [q] p) = last (rev ?d)"
    using assms unfolding py_strip_def py_rstrip_def
    by (metis append_Nil2 last_appendR takeWhile_dropWhile_id)
  also have "\<dots> = hd ?d" using ne by (simp add: last_rev)
  finally show "last (py_strip [q] p) \<noteq> q"
    using hd_dropWhile [OF ne] by simp
qed

subsection \<open>The decoder on a tagged line\<close>

lemma find_sep_char_cut: "c \<notin> set a \<Longrightarrow> find_sep [c] (a @ c # b) = Some (a, b)"
  by (induction a) auto

lemma py_split_tag:
  "CHR '':'' \<notin> set tag \<Longrightarrow> py_split '':'' 1 (tag @ CHR '':'' # content) = [tag, content]"
  by (subst py_split.simps, simp add: find_sep_char_cut, subst py_split.simps, simp)

lemma parse_line_tagged:
  assumes "OutputType_members tag = Some t" and "CHR '':'' \<notin> set tag"
  shows "parse_line (tag @ CHR '':'' # content) =
           (case decode t content of
              (logs, Inl e) \<Rightarrow> (logs, Inl e)
            | (logs, Inr message) \<Rightarrow> (logs, Inr (t, message)))"
  using assms by (simp add: parse_line_def py_split_tag)

lemma parse_line_DRV:
  "parse_line (''DRV:'' @ content) =
     (case Drive_init (rev (parse_content content 4 2)) of
        Inl e \<Rightarrow> ([], Inl e)
      | Inr d \<Rightarrow> ([], Inr (DRV, D_Drive d)))"
  using parse_line_tagged [of "''DRV''" DRV content]
  by (simp add: OutputType_members_def decode_def lift_data_def split: sum.splits)

lemma Drive_init_Inr:
  assumes "Drive_init xs = Inr d"
  shows "\<exists>mount disc info flags enabled visible index f e v i.
           xs = [mount, disc, info, flags, enabled, visible, index]
           \<and> py_int flags = Some f \<and> py_int enabled = Some e
           \<and> py_int visible = Some v \<and> py_int index = Some i
           \<and> d = Drive_post_init
                   \<lparr>drv_mount = mount, drv_disc = disc, drv_info = info, drv_flags = f,
                    drv_enabled = (e = MAKEMKV_UNKNOWN_DRV), drv_visible = v,
                    drv_index = i\<rparr>"
  using assms by (rule Drive_init.elims) (auto split: option.splits)

lemma Drive_post_init_base:
  "drv_enabled (Drive_post_init b) = drv_enabled b"
  "drv_flags (Drive_post_init b) = drv_flags b"
  "drv_visible (Drive_post_init b) = drv_visible b"
  "drv_index (Drive_post_init b) = drv_index b"
  "drv_mount (Drive_post_init b) = drv_mount b"
  "drv_disc (Drive_post_init b) = drv_disc b"
  "drv_info (Drive_post_init b) = drv_info b"
  by (simp_all add: Drive_post_init_def Let_def split: DriveType.splits DriveVisible.splits)

lemma Drive_post_init_derived:
  "drv_attached (Drive_post_init b) = (drv_visible b \<in> {0, 1, 2, 3})"
  "drv_loaded (Drive_post_init b) = (drv_visible b \<in> {2, 3})"
  "drv_open (Drive_post_init b) = (drv_visible b = 1)"
  "drv_media_cd (Drive_post_init b) = (drv_flags b \<notin> {1, 12, 28})"
  "drv_media_dvd (Drive_post_init b) = (drv_flags b = 1)"
  "drv_media_bd (Drive_post_init b) = (drv_flags b \<in> {12, 28})"
  by (auto simp: Drive_post_init_def Let_def DriveType_of_def DriveVisible_of_def
           split: DriveType.splits DriveVisible.splits if_splits)

text \<open>
  What \<^verbatim>\<open>int()\<close> rejects is rejected by the constructors: a literal over
  the digit limit, a separator character before the digits, and with them every
  DRV line that has such a field.
\<close>

lemma py_int_digit_limit:
  "int_max_str_digits
     < length (filter is_digit (dropWhile py_int_isspace (rev (dropWhile py_int_isspace (rev s)))))
   \<Longrightarrow> py_int s = None"
  by (simp add: py_int_def Let_def)

lemma py_int_separator: "py_int ([CHR 0x1C] @ ''999'') = None"
  by code_simp

lemma Drive_init_not_integer:
  "py_int flags = None \<or> py_int enabled = None \<or> py_int visible = None \<or> py_int index = None
     \<Longrightarrow> Drive_init [mount, disc, info, flags, enabled, visible, index] = Inl ValueError"
  by (auto split: option.splits)

subsection \<open>The \<open>enabled\<close> field of a drive\<close>

text \<open>
  Claim C10. For every decoded \<open>Drive\<close> record, the field \<open>enabled\<close> is true if
  and only if the third field of the line, read by \<^verbatim>\<open>int()\<close>, is 999
  (\<open>MAKEMKV_UNKNOWN_DRV\<close>); any other value, 1 included, gives false. And such
  records are decoded: a DRV line with its seven fields, the four numeric ones
  integers, decodes to a \<open>Drive\<close> whose field \<open>enabled\<close> says whether the third
  field is 999.
\<close>

theorem drive_enabled_iff_unknown_drv:
  "(parse_line (''DRV:'' @ content) = (logs, Inr (t, D_Drive d)) \<longrightarrow>
      (drv_enabled d \<longleftrightarrow> py_int (parse_content content 4 2 ! 2) = Some 999))
   \<and> (parse_content content 4 2 = [index, visible, enabled, flags, info, disc, mount]
        \<and> py_int flags = Some f \<and> py_int enabled = Some e
        \<and> py_int visible = Some v \<and> py_int index = Some i \<longrightarrow>
        (\<exists>d'. parse_line (''DRV:'' @ content) = ([], Inr (DRV, D_Drive d'))
           \<and> drv_enabled d' = (e = 999)))"
proof (intro conjI impI)
  assume a: "parse_line (''DRV:'' @ content) = (logs, Inr (t, D_Drive d))"
  from a [unfolded parse_line_DRV]
  have "Drive_init (rev (parse_content content 4 2)) = Inr d"
    by (simp split: sum.splits)
  from Drive_init_Inr [OF this]
  obtain mount' disc' info' flags' enabled' visible' index' f' e' v' i' where
    r: "rev (parse_content content 4 2)
          = [mount', disc', info', flags', enabled', visible', index']"
    and e: "py_int enabled' = Some e'"
    and d: "d = Drive_post_init
                   \<lparr>drv_mount = mount', drv_disc = disc', drv_info = info', drv_flags = f',
                    drv_enabled = (e' = MAKEMKV_UNKNOWN_DRV), drv_visible = v',
                    drv_index = i'\<rparr>"
    by blast
  from r have "parse_content content 4 2
                 = rev [mount', disc', info', flags', enabled', visible', index']"
    by (metis rev_rev_ident)
  then have "parse_content content 4 2 ! 2 = enabled'" by simp
  with e d show "drv_enabled d \<longleftrightarrow> py_int (parse_content content 4 2 ! 2) = Some 999"
    by (simp add: Drive_post_init_base MAKEMKV_UNKNOWN_DRV_def)
next
  assume h: "parse_content content 4 2 = [index, visible, enabled, flags, info, disc, mount]
        \<and> py_int flags = Some f \<and> py_int enabled = Some e
        \<and> py_int visible = Some v \<and> py_int index = Some i"
  let ?b = "\<lparr>drv_mount = mount, drv_disc = disc, drv_info = info, drv_flags = f,
             drv_enabled = (e = MAKEMKV_UNKNOWN_DRV), drv_visible = v, drv_index = i\<rparr>"
  have "Drive_init (rev (parse_content content 4 2)) = Inr (Drive_post_init ?b)"
    using h by simp
  then have "parse_line (''DRV:'' @ content) = ([], Inr (DRV, D_Drive (Drive_post_init ?b)))"
    unfolding parse_line_DRV by simp
  then show "\<exists>d'. parse_line (''DRV:'' @ content) = ([], Inr (DRV, D_Drive d'))
           \<and> drv_enabled d' = (e = 999)"
    by (intro exI [of _ "Drive_post_init ?b"])
       (simp add: Drive_post_init_base MAKEMKV_UNKNOWN_DRV_def)
qed

theorem drive_enabled_iff_unknown_drv_witness:
  "(\<exists>d. parse_line ''DRV:0,1,999,0,\"BD-RE PIONEER BD-RW   BDR-UD04 1.14 BCDL000001WL\",\"\",\"/dev/sr2\"''
          = ([], Inr (DRV, D_Drive d)) \<and> drv_enabled d)
   \<and> (\<exists>d. parse_line ''DRV:0,2,1,12,\"BD-ROM\",\"DISC\",\"/dev/sr0\"''
          = ([], Inr (DRV, D_Drive d)) \<and> \<not> drv_enabled d)
   \<and> py_int (parse_content ''0,1,999,0,\"BD-RE PIONEER BD-RW   BDR-UD04 1.14 BCDL000001WL\",\"\",\"/dev/sr2\"'' 4 2 ! 2) = Some 999
   \<and> py_int (parse_content ''0,2,1,12,\"BD-ROM\",\"DISC\",\"/dev/sr0\"'' 4 2 ! 2) \<noteq> Some 999"
proof -
  have t1: "parse_content ''0,1,999,0,\"BD-RE PIONEER BD-RW   BDR-UD04 1.14 BCDL000001WL\",\"\",\"/dev/sr2\"'' 4 2
              = [''0'', ''1'', ''999'', ''0'',
                 ''BD-RE PIONEER BD-RW   BDR-UD04 1.14 BCDL000001WL'', [], ''/dev/sr2'']"
    by code_simp
  have t2: "parse_content ''0,2,1,12,\"BD-ROM\",\"DISC\",\"/dev/sr0\"'' 4 2
              = [''0'', ''2'', ''1'', ''12'', ''BD-ROM'', ''DISC'', ''/dev/sr0'']"
    by code_simp
  have i: "py_int ''0'' = Some 0" "py_int ''999'' = Some 999" "py_int ''1'' = Some 1"
    "py_int ''2'' = Some 2" "py_int ''12'' = Some 12"
    by code_simp+
  note a = drive_enabled_iff_unknown_drv
             [of "''0,1,999,0,\"BD-RE PIONEER BD-RW   BDR-UD04 1.14 BCDL000001WL\",\"\",\"/dev/sr2\"''"
                 _ _ _ "''0''" "''1''" "''999''" "''0''"
                 "''BD-RE PIONEER BD-RW   BDR-UD04 1.14 BCDL000001WL''" "[]" "''/dev/sr2''"
                 0 999 1 0]
  note b = drive_enabled_iff_unknown_drv
             [of "''0,2,1,12,\"BD-ROM\",\"DISC\",\"/dev/sr0\"''"
                 _ _ _ "''0''" "''2''" "''1''" "''12''" "''BD-ROM''" "''DISC''" "''/dev/sr0''"
                 12 1 2 0]
  from a t1 i have 1: "\<exists>d. parse_line (''DRV:'' @ ''0,1,999,0,\"BD-RE PIONEER BD-RW   BDR-UD04 1.14 BCDL000001WL\",\"\",\"/dev/sr2\"'')
          = ([], Inr (DRV, D_Drive d)) \<and> drv_enabled d"
    by simp
  from b t2 i have 2: "\<exists>d. parse_line (''DRV:'' @ ''0,2,1,12,\"BD-ROM\",\"DISC\",\"/dev/sr0\"'')
          = ([], Inr (DRV, D_Drive d)) \<and> \<not> drv_enabled d"
    by simp
  from 1 2 t1 t2 i show ?thesis by simp
qed

subsection \<open>Drives with undocumented field values\<close>

text \<open>
  Claim C6, as stated: decoding a DRV line never raises for out-of-range field
  values, a visibility code outside 0, 1, 2, 3, 256 is treated as not attached,
  an undocumented media-flags value gives a media kind that is none of CD, DVD
  and BluRay, and the line \<^verbatim>\<open>DRV:6,256,999,0,"","",""\<close> decodes to a drive
  that is not attached and of unknown media kind. The code decides otherwise for
  the media kind: \<^verbatim>\<open>DriveType._missing_\<close> answers \<open>CD\<close>, and the flags value 0
  of the line is the documented value of \<open>CD\<close>, so the drive of the line has
  \<open>drv_media_cd\<close> set.
\<close>

theorem drive_fixture_media_cd_counterexample:
  "parse_line ''DRV:6,256,999,0,\"\",\"\",\"\"''
     = ([], Inr (DRV, D_Drive
        \<lparr>drv_mount = [], drv_disc = [], drv_info = [], drv_flags = 0,
           drv_enabled = True, drv_visible = 256, drv_index = 6,
           drv_loaded = False, drv_open = False, drv_attached = False,
           drv_media_cd = True, drv_media_dvd = False,
           drv_media_bd = False\<rparr>))"
  by code_simp

text \<open>
  Claim C6, amended. A DRV line whose seven fields are there and whose four
  numeric fields are integers, of any value, decodes without raising. The derived
  fields are functions of the visibility code and the media flags alone:
  attached exactly for the codes 0 to 3 (so 256 and every undocumented code count
  as not attached), loaded for 2 and 3, tray open for 1; DVD for the flags 1,
  BluRay for 12 and 28, and CD for every other flags value, documented (0) or
  not.
\<close>

theorem drive_decode_out_of_range:
  assumes "parse_content content 4 2 = [index, visible, enabled, flags, info, disc, mount]"
    and "py_int flags = Some f" and "py_int enabled = Some e"
    and "py_int visible = Some v" and "py_int index = Some i"
  shows "\<exists>d. parse_line (''DRV:'' @ content) = ([], Inr (DRV, D_Drive d))
           \<and> drv_flags d = f \<and> drv_visible d = v \<and> drv_index d = i
           \<and> drv_attached d = (v \<in> {0, 1, 2, 3})
           \<and> drv_loaded d = (v \<in> {2, 3})
           \<and> drv_open d = (v = 1)
           \<and> drv_media_cd d = (f \<notin> {1, 12, 28})
           \<and> drv_media_dvd d = (f = 1)
           \<and> drv_media_bd d = (f \<in> {12, 28})"
proof -
  let ?b = "\<lparr>drv_mount = mount, drv_disc = disc, drv_info = info, drv_flags = f,
             drv_enabled = (e = MAKEMKV_UNKNOWN_DRV), drv_visible = v, drv_index = i\<rparr>"
  have "Drive_init (rev (parse_content content 4 2)) = Inr (Drive_post_init ?b)"
    using assms by simp
  then have "parse_line (''DRV:'' @ content) = ([], Inr (DRV, D_Drive (Drive_post_init ?b)))"
    unfolding parse_line_DRV by simp
  then show ?thesis
    by (intro exI [of _ "Drive_post_init ?b"])
       (simp add: Drive_post_init_base Drive_post_init_derived del: insert_iff)
qed

theorem drive_decode_out_of_range_witness:
  "\<exists>d. parse_line ''DRV:6,256,999,0,\"\",\"\",\"\"'' = ([], Inr (DRV, D_Drive d))
       \<and> drv_flags d = 0 \<and> drv_visible d = 256 \<and> drv_index d = 6
       \<and> \<not> drv_attached d \<and> \<not> drv_loaded d \<and> \<not> drv_open d
       \<and> drv_media_cd d \<and> \<not> drv_media_dvd d \<and> \<not> drv_media_bd d"
proof -
  have t: "parse_content ''6,256,999,0,\"\",\"\",\"\"'' 4 2 = [''6'', ''256'', ''999'', ''0'', [], [], []]"
    by code_simp
  have i: "py_int ''0'' = Some 0" "py_int ''999'' = Some 999" "py_int ''256'' = Some 256"
    "py_int ''6'' = Some 6"
    by code_simp+
  show ?thesis
    using drive_decode_out_of_range [OF t i] by simp
qed

subsection \<open>Construction of an error message\<close>

text \<open>
  Claim C7, as stated: an \<open>ErrorMessage\<close> is constructed from a \<open>Message\<close> only
  when the message has at least 2 parameters. The guard of
  \<^verbatim>\<open>MakeMKVErrorMessage.__post_init__\<close> counts the entries of \<^verbatim>\<open>sprintf\<close>,
  the format string included: a message with one parameter is accepted.
\<close>

theorem error_message_one_param_counterexample:
  "length (params \<lparr>msg_code = 5055, msg_flags = 0, msg_count = 1,
             msg_message = ''Evaluation period has expired'',
             msg_sprintf = [''%1 has expired'', ''Evaluation period'']\<rparr>) = 1
   \<and> MakeMKVErrorMessage_init
         \<lparr>msg_code = 5055, msg_flags = 0, msg_count = 1,
          msg_message = ''Evaluation period has expired'',
          msg_sprintf = [''%1 has expired'', ''Evaluation period'']\<rparr>
         ''Evaluation period has expired''
       = Inr \<lparr>msg_code = 5055, msg_flags = 0, msg_count = 1,
              msg_message = ''Evaluation period has expired'', msg_sprintf = [],
              msg_error = ''Evaluation period''\<rparr>"
  by (simp add: params_def MakeMKVErrorMessage_init_def)

text \<open>
  Claim C7, amended. The construction raises ValueError when the list of the
  format string and the parameters has fewer than 2 entries, and succeeds
  otherwise, that is as soon as the message has a format string and at least one
  parameter. On success the error text is the first parameter, the remaining
  parameters are kept in \<^verbatim>\<open>sprintf\<close> (the format string is dropped), and the
  other fields are those of the message; the argument passed for the error text
  is ignored.
\<close>

theorem error_message_construction:
  "(length (msg_sprintf d) < 2 \<longrightarrow> MakeMKVErrorMessage_init d e = Inl ValueError)
   \<and> (2 \<le> length (msg_sprintf d) \<longrightarrow>
        (\<exists>m. MakeMKVErrorMessage_init d e = Inr m
           \<and> msg_error m = params d ! 0
           \<and> msg_sprintf m = drop 1 (params d)
           \<and> msg_code m = msg_code d \<and> msg_flags m = msg_flags d
           \<and> msg_count m = msg_count d \<and> msg_message m = msg_message d))
   \<and> (2 \<le> length (msg_sprintf d) \<longleftrightarrow> msg_sprintf d \<noteq> [] \<and> 1 \<le> length (params d))"
  by (cases "msg_sprintf d") (auto simp: MakeMKVErrorMessage_init_def params_def)

theorem error_message_construction_witness:
  "MakeMKVErrorMessage_init
      \<lparr>msg_code = 5080, msg_flags = 0, msg_count = 0, msg_message = ''Backup failed'',
       msg_sprintf = [''Backup failed'']\<rparr> ''Backup failed'' = Inl ValueError
   \<and> MakeMKVErrorMessage_init
         \<lparr>msg_code = 2003, msg_flags = 0, msg_count = 3,
          msg_message = ''Error X occurred while reading Y at offset Z'',
          msg_sprintf = [''Error %1 occurred while reading %2 at offset %3'',
                         ''X'', ''Y'', ''Z'']\<rparr> ''ignored''
       = Inr \<lparr>msg_code = 2003, msg_flags = 0, msg_count = 3,
              msg_message = ''Error X occurred while reading Y at offset Z'',
              msg_sprintf = [''Y'', ''Z''], msg_error = ''X''\<rparr>"
  using error_message_construction
          [of "\<lparr>msg_code = 5080, msg_flags = 0, msg_count = 0, msg_message = ''Backup failed'',
                msg_sprintf = [''Backup failed'']\<rparr>" "''Backup failed''"]
        error_message_construction
          [of "\<lparr>msg_code = 2003, msg_flags = 0, msg_count = 3,
                msg_message = ''Error X occurred while reading Y at offset Z'',
                msg_sprintf = [''Error %1 occurred while reading %2 at offset %3'',
                               ''X'', ''Y'', ''Z'']\<rparr>" "''ignored''"]
  by (simp add: params_def MakeMKVErrorMessage_init_def)

subsection \<open>Classification of a read error\<close>

lemma read_error_map_cases:
  "map_of READ_ERROR_MAP x = Some (lvl, dbg) \<Longrightarrow> dbg \<noteq> []"
  by (auto simp: READ_ERROR_MAP_def split: if_splits)

lemma read_error_map_tray_open:
  "map_of READ_ERROR_MAP ERROR_MESSAGE_TRAY_OPEN = Some (Info, ''error mostly non fatal'')"
  by (simp add: READ_ERROR_MAP_def ERROR_MESSAGE_TRAY_OPEN_def
        ERROR_MESSAGE_OPERATION_RESULT_def)

text \<open>
  Claim C3. A message with code 2003 and at least the format string and one
  parameter is always classified as an \<open>ErrorMessage\<close> whose error text is the
  first parameter. When that parameter is the tray-open string, the message text
  is logged at level info (after the diagnostic note at level debug) and nothing
  is logged at level critical; when it is not a key of the table, the raw error
  text is logged at level warning; whenever the table has a note for it, the
  logged text is the formatted message, at the level of the table.
\<close>

theorem read_error_classified:
  assumes "msg_code d = READ_ERROR" and "2 \<le> length (msg_sprintf d)"
  shows "\<exists>logs m. check d = (logs, Inr (D_ErrorMessage m))
           \<and> msg_error m = params d ! 0
           \<and> (params d ! 0 = ERROR_MESSAGE_TRAY_OPEN \<longrightarrow>
                logs = [(Debug, ''error mostly non fatal''), (Info, msg_message d)]
                \<and> Critical \<notin> fst ` set logs)
           \<and> (map_of READ_ERROR_MAP (params d ! 0) = None \<longrightarrow>
                logs = [(Warning, params d ! 0)])
           \<and> (\<forall>lvl dbg. map_of READ_ERROR_MAP (params d ! 0) = Some (lvl, dbg) \<longrightarrow>
                logs = [(Debug, dbg), (lvl, msg_message d)])"
proof -
  let ?x = "msg_sprintf d ! 1"
  have p: "params d ! 0 = ?x" using assms(2) by (simp add: params_def)
  have c: "check d = read_error d" using assms(1) by (simp add: check_def)
  obtain m where m: "as_error_message d = Inr (D_ErrorMessage m)" "msg_error m = ?x"
    using assms(2) by (simp add: as_error_message_def MakeMKVErrorMessage_init_def)
  show ?thesis
  proof (cases "map_of READ_ERROR_MAP ?x")
    case None
    then have "read_error d = ([(Warning, ?x)], Inr (D_ErrorMessage m))"
      using assms(2) m by (simp add: read_error_def)
    with None show ?thesis
      using c p m(2) read_error_map_tray_open by auto
  next
    case (Some a)
    obtain lvl dbg where a: "a = (lvl, dbg)" by (cases a)
    have n: "dbg \<noteq> []" using read_error_map_cases Some a by blast
    have "read_error d = ([(Debug, dbg), (lvl, msg_message d)], Inr (D_ErrorMessage m))"
      using assms(2) m Some a n by (simp add: read_error_def)
    with Some a show ?thesis
      using c p m(2) read_error_map_tray_open by auto
  qed
qed

theorem read_error_classified_witness:
  "check \<lparr>msg_code = 2003, msg_flags = 0, msg_count = 2, msg_message = ''formatted text'',
          msg_sprintf = [''Error %1 at %2'', ERROR_MESSAGE_TRAY_OPEN, ''detail'']\<rparr>
     = ([(Debug, ''error mostly non fatal''), (Info, ''formatted text'')],
        Inr (D_ErrorMessage
          \<lparr>msg_code = 2003, msg_flags = 0, msg_count = 2, msg_message = ''formatted text'',
           msg_sprintf = [''detail''], msg_error = ERROR_MESSAGE_TRAY_OPEN\<rparr>))
   \<and> check \<lparr>msg_code = 2003, msg_flags = 0, msg_count = 2, msg_message = ''formatted text'',
          msg_sprintf = [''Error %1 at %2'', ''unrecognized string'', ''detail'']\<rparr>
     = ([(Warning, ''unrecognized string'')],
        Inr (D_ErrorMessage
          \<lparr>msg_code = 2003, msg_flags = 0, msg_count = 2, msg_message = ''formatted text'',
           msg_sprintf = [''detail''], msg_error = ''unrecognized string''\<rparr>))"
proof -
  let ?d1 = "\<lparr>msg_code = 2003, msg_flags = 0, msg_count = 2, msg_message = ''formatted text'',
          msg_sprintf = [''Error %1 at %2'', ERROR_MESSAGE_TRAY_OPEN, ''detail'']\<rparr>"
  let ?d2 = "\<lparr>msg_code = 2003, msg_flags = 0, msg_count = 2, msg_message = ''formatted text'',
          msg_sprintf = [''Error %1 at %2'', ''unrecognized string'', ''detail'']\<rparr>"
  have h1: "msg_code ?d1 = READ_ERROR" "2 \<le> length (msg_sprintf ?d1)"
    by (simp_all add: READ_ERROR_def)
  have h2: "msg_code ?d2 = READ_ERROR" "2 \<le> length (msg_sprintf ?d2)"
    by (simp_all add: READ_ERROR_def)
  have u: "map_of READ_ERROR_MAP ''unrecognized string'' = None"
    by (simp add: READ_ERROR_MAP_def ERROR_MESSAGE_TRAY_OPEN_def
          ERROR_MESSAGE_OPERATION_RESULT_def ERROR_MESSAGE_MEDIUM_ERROR_def
          ERROR_MESSAGE_HARDWARE_ERROR_def)
  have e1: "check ?d1 = ([(Debug, ''error mostly non fatal''), (Info, ''formatted text'')],
        Inr (D_ErrorMessage
          \<lparr>msg_code = 2003, msg_flags = 0, msg_count = 2, msg_message = ''formatted text'',
           msg_sprintf = [''detail''], msg_error = ERROR_MESSAGE_TRAY_OPEN\<rparr>))"
    by (simp add: check_def read_error_def READ_ERROR_def read_error_map_tray_open Let_def
          as_error_message_def MakeMKVErrorMessage_init_def)
  have e2: "check ?d2 = ([(Warning, ''unrecognized string'')],
        Inr (D_ErrorMessage
          \<lparr>msg_code = 2003, msg_flags = 0, msg_count = 2, msg_message = ''formatted text'',
           msg_sprintf = [''detail''], msg_error = ''unrecognized string''\<rparr>))"
    by (simp add: check_def read_error_def READ_ERROR_def u Let_def
          as_error_message_def MakeMKVErrorMessage_init_def)
  show ?thesis
    using read_error_classified [OF h1] read_error_classified [OF h2] e1 e2
    by simp
qed


subsection \<open>The tokenizer\<close>

text \<open>
  Claim C4, as stated: the tokenizer splits on commas at most \<open>fixed_field_count\<close>
  times, splits the tail on the quote-comma-quote sequence at most
  \<open>quoted_field_count\<close> times and strips one leading and one trailing double
  quote from each piece of the tail. \<^verbatim>\<open>str.strip('"')\<close> removes every leading
  and trailing double quote: on a field that ends with a quoted word the code and
  the tokenizer of the claim differ.
\<close>

theorem tokenizer_strip_counterexample:
  "parse_content ''2,0,\"The \"Movie\"\"'' 2 0 = [''2'', ''0'', ''The \"Movie'']
   \<and> tokenizer_spec ''2,0,\"The \"Movie\"\"'' 2 0 = [''2'', ''0'', ''The \"Movie\"'']"
  by code_simp

lemma msg_fixture:
  "parse_line ''MSG:1005,0,1,\"MakeMKV v1.17.8 linux(x64-release) started\",\"%1 started\",\"MakeMKV v1.17.8 linux(x64-release)\"''
  = ([], Inr (MSG, D_Message \<lparr>msg_code = 1005, msg_flags = 0, msg_count = 1,
           msg_message = ''MakeMKV v1.17.8 linux(x64-release) started'',
           msg_sprintf = [''%1 started'', ''MakeMKV v1.17.8 linux(x64-release)'']\<rparr>))"
  by code_simp

text \<open>
  Claim C4, amended. \<open>parse_content\<close> returns the pieces of the header but the
  last, followed by the stripped pieces of the tail, where: the header pieces
  joined by commas give the payload back, there are at most \<open>num_header + 1\<close>
  of them when \<open>num_header\<close> is not negative, none but the last holds a comma, and
  the last holds none either when the limit was not reached or is negative (no
  limit); the same holds of the pieces of the tail for the quote-comma-quote
  sequence and \<open>num_message\<close> (the MSG line passes -1: no limit); each piece of
  the tail is its stripped form between two runs of double quotes, and the
  stripped form neither starts nor ends with a double quote (every leading and
  trailing double quote is removed, not one). The fixture line decodes to the
  message with code 1005, flags 0, count 1, the given text, the format string
  and the one parameter.
\<close>

theorem parse_content_tokens:
  "(let header = py_split '','' num_header content;
        message = py_split ''\",\"'' num_message (last header)
    in parse_content content num_header num_message
         = butlast header @ map (py_strip ''\"'') message
       \<and> py_join '','' header = content
       \<and> (0 \<le> num_header \<longrightarrow> length header \<le> nat num_header + 1)
       \<and> (\<forall>h \<in> set (butlast header). CHR '','' \<notin> set h)
       \<and> (num_header < 0 \<or> length header < nat num_header + 1
            \<longrightarrow> CHR '','' \<notin> set (last header))
       \<and> py_join ''\",\"'' message = last header
       \<and> (0 \<le> num_message \<longrightarrow> length message \<le> nat num_message + 1)
       \<and> (\<forall>p \<in> set (butlast message). find_sep ''\",\"'' p = None)
       \<and> (num_message < 0 \<or> length message < nat num_message + 1
            \<longrightarrow> find_sep ''\",\"'' (last message) = None)
       \<and> (\<forall>p \<in> set message.
             (\<exists>i j. p = replicate i (CHR 0x22) @ py_strip ''\"'' p @ replicate j (CHR 0x22))
             \<and> (py_strip ''\"'' p \<noteq> [] \<longrightarrow>
                  hd (py_strip ''\"'' p) \<noteq> CHR 0x22 \<and> last (py_strip ''\"'' p) \<noteq> CHR 0x22)))
   \<and> parse_line ''MSG:1005,0,1,\"MakeMKV v1.17.8 linux(x64-release) started\",\"%1 started\",\"MakeMKV v1.17.8 linux(x64-release)\"''
       = ([], Inr (MSG, D_Message \<lparr>msg_code = 1005, msg_flags = 0, msg_count = 1,
           msg_message = ''MakeMKV v1.17.8 linux(x64-release) started'',
           msg_sprintf = [''%1 started'', ''MakeMKV v1.17.8 linux(x64-release)'']\<rparr>))
   \<and> params \<lparr>msg_code = 1005, msg_flags = 0, msg_count = 1,
           msg_message = ''MakeMKV v1.17.8 linux(x64-release) started'',
           msg_sprintf = [''%1 started'', ''MakeMKV v1.17.8 linux(x64-release)'']\<rparr>
       = [''MakeMKV v1.17.8 linux(x64-release)'']"
proof -
  let ?header = "py_split '','' num_header content"
  let ?message = "py_split ''\",\"'' num_message (last ?header)"
  have 1: "parse_content content num_header num_message
             = butlast ?header @ map (py_strip ''\"'') ?message"
    by (simp add: parse_content_def Let_def)
  have 2: "py_join '','' ?header = content" by (rule py_join_split)
  have 3: "0 \<le> num_header \<longrightarrow> length ?header \<le> nat num_header + 1"
    using py_split_length [of num_header "'',''" content] by blast
  have 4: "\<forall>h \<in> set (butlast ?header). CHR '','' \<notin> set h"
    using py_split_butlast_free [of "'',''" _ num_header content]
    by (simp add: find_sep_char)
  have 5: "num_header < 0 \<or> length ?header < nat num_header + 1
            \<longrightarrow> CHR '','' \<notin> set (last ?header)"
    using py_split_last_free [of "'',''" num_header content]
    by (simp add: find_sep_char)
  have 6: "py_join ''\",\"'' ?message = last ?header" by (rule py_join_split)
  have 7: "0 \<le> num_message \<longrightarrow> length ?message \<le> nat num_message + 1"
    using py_split_length [of num_message "''\",\"''" "last ?header"] by blast
  have 8: "\<forall>p \<in> set (butlast ?message). find_sep ''\",\"'' p = None"
    using py_split_butlast_free [of "''\",\"''" _ num_message "last ?header"] by simp
  have 9: "num_message < 0 \<or> length ?message < nat num_message + 1
            \<longrightarrow> find_sep ''\",\"'' (last ?message) = None"
    using py_split_last_free [of "''\",\"''" num_message "last ?header"] by simp
  have 10: "\<forall>p \<in> set ?message.
             (\<exists>i j. p = replicate i (CHR 0x22) @ py_strip ''\"'' p @ replicate j (CHR 0x22))
             \<and> (py_strip ''\"'' p \<noteq> [] \<longrightarrow>
                  hd (py_strip ''\"'' p) \<noteq> CHR 0x22 \<and> last (py_strip ''\"'' p) \<noteq> CHR 0x22)"
    using py_strip_quotes_shape [of _ "CHR 0x22"] py_strip_quotes_ends [of "CHR 0x22"]
    by blast
  have 11: "params \<lparr>msg_code = 1005, msg_flags = 0, msg_count = 1,
           msg_message = ''MakeMKV v1.17.8 linux(x64-release) started'',
           msg_sprintf = [''%1 started'', ''MakeMKV v1.17.8 linux(x64-release)'']\<rparr>
       = [''MakeMKV v1.17.8 linux(x64-release)'']"
    by (simp add: params_def)
  show ?thesis
    unfolding Let_def
    using 1 2 3 4 5 6 7 8 9 10 11 msg_fixture by blast
qed

theorem parse_content_tokens_witness:
  "parse_content ''6,256,999,0,\"BD-Drive\",\"THE TITLE\",\"/dev/sr0\"'' 4 2
     = [''6'', ''256'', ''999'', ''0'', ''BD-Drive'', ''THE TITLE'', ''/dev/sr0'']
   \<and> py_split '','' 4 ''6,256,999,0,\"BD-Drive\",\"THE TITLE\",\"/dev/sr0\"''
     = [''6'', ''256'', ''999'', ''0'', ''\"BD-Drive\",\"THE TITLE\",\"/dev/sr0\"'']
   \<and> py_split ''\",\"'' 2 ''\"BD-Drive\",\"THE TITLE\",\"/dev/sr0\"''
     = [''\"BD-Drive'', ''THE TITLE'', ''/dev/sr0\"'']
   \<and> py_split ''\",\"'' (- 1) ''\"MakeMKV v1.17.8 linux(x64-release) started\",\"%1 started\",\"MakeMKV v1.17.8 linux(x64-release)\"''
     = [''\"MakeMKV v1.17.8 linux(x64-release) started'', ''%1 started'',
        ''MakeMKV v1.17.8 linux(x64-release)\"'']"
proof -
  have e: "py_split '','' 4 ''6,256,999,0,\"BD-Drive\",\"THE TITLE\",\"/dev/sr0\"''
     = [''6'', ''256'', ''999'', ''0'', ''\"BD-Drive\",\"THE TITLE\",\"/dev/sr0\"'']"
    "py_split ''\",\"'' 2 ''\"BD-Drive\",\"THE TITLE\",\"/dev/sr0\"''
     = [''\"BD-Drive'', ''THE TITLE'', ''/dev/sr0\"'']"
    "py_split ''\",\"'' (- 1) ''\"MakeMKV v1.17.8 linux(x64-release) started\",\"%1 started\",\"MakeMKV v1.17.8 linux(x64-release)\"''
     = [''\"MakeMKV v1.17.8 linux(x64-release) started'', ''%1 started'',
        ''MakeMKV v1.17.8 linux(x64-release)\"'']"
    "py_strip ''\"'' ''\"BD-Drive'' = ''BD-Drive''"
    "py_strip ''\"'' ''THE TITLE'' = ''THE TITLE''"
    "py_strip ''\"'' ''/dev/sr0\"'' = ''/dev/sr0''"
    by code_simp+
  show ?thesis
    using parse_content_tokens
            [of 4 "''6,256,999,0,\"BD-Drive\",\"THE TITLE\",\"/dev/sr0\"''" 2]
    by (simp add: Let_def e)
qed


subsection \<open>The runner when no other exception escapes the decoder\<close>

text \<open>
  On a stream whose lines all decode or raise \<open>MakeMkvParserError\<close>, the loop
  ends with the rejected lines in the buffer, in order, and the run raises
  \<open>MakeMkvRuntimeError\<close> with the joined buffer when the exit status is not
  zero or the buffer is not empty. On every stream, the run ends without an
  exception exactly when the exit status is zero and every line decodes.
\<close>

lemma run_loop_step_error:
  "snd (parse_line (py_rstrip os_linesep raw)) = Inl (MakeMkvParserError m) \<Longrightarrow>
     run_loop None select buf (raw # rest)
       = run_loop None select (buf @ [py_rstrip os_linesep raw]) rest"
  by (simp add: truthy_int_def Let_def)

lemma run_loop_step_data:
  "snd (parse_line (py_rstrip os_linesep raw)) = Inr (t, d) \<Longrightarrow>
     run_loop None select buf rest = (ys, b, r) \<Longrightarrow>
     run_loop None select buf (raw # rest) = ((if t \<in> select then [d] else []) @ ys, b, r)"
  by (simp add: truthy_int_def Let_def)

lemma run_loop_step_abort:
  "snd (parse_line (py_rstrip os_linesep raw)) = Inl e \<Longrightarrow> \<forall>m. e \<noteq> MakeMkvParserError m \<Longrightarrow>
     run_loop None select buf (raw # rest) = ([], buf, Some e)"
  by (cases e) (simp_all add: truthy_int_def Let_def)

lemma run_loop_parsed:
  assumes "\<forall>raw \<in> set lines. \<forall>e. snd (parse_line (py_rstrip os_linesep raw)) = Inl e
             \<longrightarrow> (\<exists>m. e = MakeMkvParserError m)"
  shows "\<exists>ys. run_loop None select buf lines
           = (ys, buf @ filter (\<lambda>l. isl (snd (parse_line l)))
                          (map (py_rstrip os_linesep) lines), None)"
  using assms
proof (induction lines arbitrary: buf)
  case Nil
  then show ?case by simp
next
  case (Cons raw rest)
  let ?l = "py_rstrip os_linesep raw"
  from Cons.prems have ok: "\<forall>raw \<in> set rest. \<forall>e. snd (parse_line (py_rstrip os_linesep raw)) = Inl e
             \<longrightarrow> (\<exists>m. e = MakeMkvParserError m)"
    by simp
  show ?case
  proof (cases "snd (parse_line ?l)")
    case (Inl e)
    with Cons.prems obtain m where m: "snd (parse_line ?l) = Inl (MakeMkvParserError m)"
      by auto
    from Cons.IH [OF ok, of "buf @ [?l]"] obtain ys where
      "run_loop None select (buf @ [?l]) rest
         = (ys, (buf @ [?l]) @ filter (\<lambda>l. isl (snd (parse_line l)))
                          (map (py_rstrip os_linesep) rest), None)"
      by blast
    then show ?thesis
      unfolding run_loop_step_error [OF m] using m by (intro exI [of _ ys]) simp
  next
    case (Inr x)
    obtain t d where x: "snd (parse_line ?l) = Inr (t, d)" using Inr by (cases x) simp
    from Cons.IH [OF ok, of buf] obtain ys where
      r: "run_loop None select buf rest
         = (ys, buf @ filter (\<lambda>l. isl (snd (parse_line l)))
                          (map (py_rstrip os_linesep) rest), None)"
      by blast
    show ?thesis
      unfolding run_loop_step_data [OF x r] using x by simp
  qed
qed

lemma run_loop_aborts:
  assumes "\<exists>raw \<in> set lines. \<exists>e. snd (parse_line (py_rstrip os_linesep raw)) = Inl e
             \<and> (\<forall>m. e \<noteq> MakeMkvParserError m)"
  shows "\<exists>ys b e. run_loop None select buf lines = (ys, b, Some e)
           \<and> (\<forall>m. e \<noteq> MakeMkvParserError m)"
  using assms
proof (induction lines arbitrary: buf)
  case Nil
  then show ?case by simp
next
  case (Cons raw rest)
  let ?l = "py_rstrip os_linesep raw"
  show ?case
  proof (cases "snd (parse_line ?l)")
    case (Inl e)
    show ?thesis
    proof (cases "\<forall>m. e \<noteq> MakeMkvParserError m")
      case True
      from run_loop_step_abort [OF Inl True] True show ?thesis by blast
    next
      case False
      then obtain m where m: "snd (parse_line ?l) = Inl (MakeMkvParserError m)"
        using Inl by auto
      with Cons.prems have "\<exists>raw \<in> set rest. \<exists>e. snd (parse_line (py_rstrip os_linesep raw)) = Inl e
             \<and> (\<forall>m. e \<noteq> MakeMkvParserError m)"
        by auto
      from Cons.IH [OF this, of "buf @ [?l]"] show ?thesis
        unfolding run_loop_step_error [OF m] .
    qed
  next
    case (Inr x)
    obtain t d where x: "snd (parse_line ?l) = Inr (t, d)" using Inr by (cases x) simp
    with Cons.prems have "\<exists>raw \<in> set rest. \<exists>e. snd (parse_line (py_rstrip os_linesep raw)) = Inl e
             \<and> (\<forall>m. e \<noteq> MakeMkvParserError m)"
      by auto
    from Cons.IH [OF this, of buf] obtain ys b e where
      r: "run_loop None select buf rest = (ys, b, Some e)" and e: "\<forall>m. e \<noteq> MakeMkvParserError m"
      by blast
    show ?thesis
      unfolding run_loop_step_data [OF x r] using e by blast
  qed
qed

lemma run_runtime_error:
  assumes "\<forall>raw \<in> set (stdout p). \<forall>e. snd (parse_line (py_rstrip os_linesep raw)) = Inl e
             \<longrightarrow> (\<exists>m. e = MakeMkvParserError m)"
    and "exit_status p \<noteq> 0
         \<or> (\<exists>raw \<in> set (stdout p). isl (snd (parse_line (py_rstrip os_linesep raw))))"
  shows "snd (run w p options select)
           = Some (MakeMkvRuntimeError (exit_status p)
                     ([makemkvcon_path w, ''--robot'', ''--messages=-stdout''] @ options)
                     (py_join os_linesep
                        (filter (\<lambda>l. isl (snd (parse_line l)))
                           (map (py_rstrip os_linesep) (stdout p)))))"
proof -
  let ?b = "filter (\<lambda>l. isl (snd (parse_line l))) (map (py_rstrip os_linesep) (stdout p))"
  from run_loop_parsed [OF assms(1), of select "[]"] obtain ys where
    l: "run_loop None select [] (stdout p) = (ys, ?b, None)"
    by auto
  have "?b = [] \<longleftrightarrow> (\<forall>raw \<in> set (stdout p). \<not> isl (snd (parse_line (py_rstrip os_linesep raw))))"
    by (simp add: filter_empty_conv)
  with assms(2) have "exit_status p \<noteq> 0 \<or> ?b \<noteq> []" by blast
  then show ?thesis
    unfolding run_def Let_def l by auto
qed

lemma run_completes_iff:
  "snd (run w p options select) = None \<longleftrightarrow>
     exit_status p = 0
     \<and> (\<forall>raw \<in> set (stdout p). \<not> isl (snd (parse_line (py_rstrip os_linesep raw))))"
proof (cases "\<forall>raw \<in> set (stdout p). \<forall>e. snd (parse_line (py_rstrip os_linesep raw)) = Inl e
             \<longrightarrow> (\<exists>m. e = MakeMkvParserError m)")
  case True
  let ?b = "filter (\<lambda>l. isl (snd (parse_line l))) (map (py_rstrip os_linesep) (stdout p))"
  from run_loop_parsed [OF True, of select "[]"] obtain ys where
    l: "run_loop None select [] (stdout p) = (ys, ?b, None)"
    by auto
  have b: "?b = [] \<longleftrightarrow> (\<forall>raw \<in> set (stdout p). \<not> isl (snd (parse_line (py_rstrip os_linesep raw))))"
    by (simp add: filter_empty_conv)
  have "snd (run w p options select) = None \<longleftrightarrow> exit_status p = 0 \<and> ?b = []"
    unfolding run_def Let_def l by auto
  with b show ?thesis by blast
next
  case False
  then have a: "\<exists>raw \<in> set (stdout p). \<exists>e. snd (parse_line (py_rstrip os_linesep raw)) = Inl e
             \<and> (\<forall>m. e \<noteq> MakeMkvParserError m)"
    by blast
  from run_loop_aborts [OF a, of select "[]"] obtain ys b e where
    l: "run_loop None select [] (stdout p) = (ys, b, Some e)"
    by blast
  have "snd (run w p options select) \<noteq> None"
    unfolding run_def Let_def l by simp
  moreover from a have "\<exists>raw \<in> set (stdout p). isl (snd (parse_line (py_rstrip os_linesep raw)))"
    by (auto simp: isl_def)
  ultimately show ?thesis by blast
qed

subsection \<open>Lines the decoder rejects\<close>

text \<open>
  Claim C2. A line without a recognizable type tag, or with a known tag and a
  payload that does not match the arity of the tag, is buffered as an unparsed
  line and the stream continues with the next line. The code does so for the
  unknown tag \<^verbatim>\<open>FOO\<close>, which raises \<open>MakeMkvParserError\<close>; on the line
  \<^verbatim>\<open>PRGV:1,2\<close>, two fields where three are expected, the constructor raises
  \<open>TypeError\<close>, which the \<^verbatim>\<open>except MakeMkvParserError\<close> clause of \<^verbatim>\<open>run\<close>
  does not catch: the stream ends there, the line is not buffered and the record
  of the following line is never yielded.
\<close>

theorem run_arity_mismatch_aborts:
  "run None \<lparr>stdout = [''TCOUNT:3'' @ os_linesep, ''PRGV:1,2'' @ os_linesep,
                         ''TCOUNT:0'' @ os_linesep], exit_status = 0\<rparr> [''info''] {TCOUNT}
     = ([D_Titles \<lparr>titles_count = 3\<rparr>], Some TypeError)
   \<and> run None \<lparr>stdout = [''TCOUNT:3'' @ os_linesep, ''FOO:1,2'' @ os_linesep,
                         ''TCOUNT:0'' @ os_linesep], exit_status = 0\<rparr> [''info''] {TCOUNT}
     = ([D_Titles \<lparr>titles_count = 3\<rparr>, D_Titles \<lparr>titles_count = 0\<rparr>],
        Some (MakeMkvRuntimeError 0
               [''/usr/local/bin/makemkvcon'', ''--robot'', ''--messages=-stdout'', ''info'']
               ''FOO:1,2''))"
  by code_simp

text \<open>
  Claim C1. After the child process has terminated with a non-zero exit status,
  \<open>MakeMkvRuntimeError\<close> is raised with the buffered unparsed lines. On a
  stream whose last line is cut short, \<^verbatim>\<open>PRGV:0\<close> or \<^verbatim>\<open>PRGV:0,0,\<close>, the
  decoder raises \<open>TypeError\<close> or \<open>ValueError\<close> and \<^verbatim>\<open>run\<close> ends with that
  exception although the exit status is 1 and a line is in the buffer.
\<close>

theorem run_nonzero_exit_other_exception:
  "run None \<lparr>stdout = [''garbage'' @ os_linesep, ''PRGV:0,0,''], exit_status = 1\<rparr>
       [''mkv''] {MSG}
     = ([], Some ValueError)
   \<and> run None \<lparr>stdout = [''garbage'' @ os_linesep, ''PRGV:0''], exit_status = 1\<rparr>
       [''mkv''] {MSG}
     = ([], Some TypeError)"
  by code_simp

subsection \<open>The throttle of the info query\<close>

lemma poll_until_Some:
  "poll_until m sl cs = Some (es, rest) \<Longrightarrow>
     \<exists>pre c. cs = pre @ c # rest \<and> (\<forall>x \<in> set pre. m < int x) \<and> int c \<le> m
       \<and> es = concat (map (\<lambda>x. [Polled x, Sleep sl]) pre) @ [Polled c]"
proof (induction cs arbitrary: es)
  case Nil
  then show ?case by simp
next
  case (Cons c cs)
  show ?case
  proof (cases "int c \<le> m")
    case True
    with Cons.prems have "es = [Polled c]" "rest = cs" by auto
    with True show ?thesis by (intro exI [of _ "[]"] exI [of _ c]) simp
  next
    case False
    with Cons.prems obtain es' where
      e: "poll_until m sl cs = Some (es', rest)" "es = Polled c # Sleep sl # es'"
      by (auto split: option.splits)
    from Cons.IH [OF e(1)] obtain pre c' where
      p: "cs = pre @ c' # rest" "\<forall>x \<in> set pre. m < int x" "int c' \<le> m"
         "es' = concat (map (\<lambda>x. [Polled x, Sleep sl]) pre) @ [Polled c']"
      by blast
    with False e(2) show ?thesis
      by (intro exI [of _ "c # pre"] exI [of _ c']) simp
  qed
qed

lemma poll_until_None:
  "poll_until m sl cs = None \<longleftrightarrow> (\<forall>c \<in> set cs. m < int c)"
  by (induction cs) (auto split: option.splits)

lemma poll_until_first:
  "\<forall>x \<in> set pre. m < int x \<Longrightarrow> int c \<le> m \<Longrightarrow>
     poll_until m sl (pre @ c # rest)
       = Some (concat (map (\<lambda>x. [Polled x, Sleep sl]) pre) @ [Polled c], rest)"
  by (induction pre) auto

text \<open>
  Claim C9. With a ceiling of 0 the throttle is disabled: whatever the counts of
  running processes, the info query neither polls nor sleeps, before or after the
  run. With a positive ceiling the query does not start while every count read is
  above the ceiling; a wait returns at the first count at or below the ceiling,
  after one poll and one sleep for each count above it; and the info query
  returns, with the records and the outcome of the run, as soon as the wait
  before the run and the wait after it have each read such a count. Whenever the
  query returns, its effects start with these polls.
\<close>

theorem throttle_ceiling:
  "(MAX_CONCURRENT_MAKEMKVINFO cfg = 0 \<longrightarrow>
      makemkv_info cfg w select index options =
        Some ([Set_status VIDEO_WAITING, Set_status VIDEO_INFO, Set_status VIDEO_WAITING,
               Set_status VIDEO_RIPPING],
              run (which w) (proc w)
                ([''info'', ''--cache=1''] @ options @ [''disc:'' @ str_of_int index]) select))
   \<and> (0 < MAX_CONCURRENT_MAKEMKVINFO cfg \<longrightarrow>
        ((\<forall>c \<in> set (counts w). MAX_CONCURRENT_MAKEMKVINFO cfg < int c) \<longrightarrow>
           makemkv_info cfg w select index options = None)
        \<and> (\<forall>es q. makemkv_info cfg w select index options = Some (es, q) \<longrightarrow>
             (\<exists>pre c rest after.
                counts w = pre @ c # rest
                \<and> (\<forall>x \<in> set pre. MAX_CONCURRENT_MAKEMKVINFO cfg < int x)
                \<and> int c \<le> MAX_CONCURRENT_MAKEMKVINFO cfg
                \<and> es = Set_status VIDEO_WAITING
                       # concat (map (\<lambda>x. [Polled x,
                                          Sleep (Sleep_range 10 (MANUAL_WAIT_TIME cfg) 10)]) pre)
                       @ [Polled c, Set_status VIDEO_INFO] @ after))
        \<and> (\<forall>pre c rest sl.
              (\<forall>x \<in> set pre. MAX_CONCURRENT_MAKEMKVINFO cfg < int x)
              \<and> int c \<le> MAX_CONCURRENT_MAKEMKVINFO cfg \<longrightarrow>
              sleep_check_process (MAX_CONCURRENT_MAKEMKVINFO cfg) sl (pre @ c # rest)
                = Some (concat (map (\<lambda>x. [Polled x, Sleep sl]) pre) @ [Polled c], rest))
        \<and> (\<forall>pre c pre' c' rest.
              counts w = pre @ c # pre' @ c' # rest
              \<and> (\<forall>x \<in> set pre. MAX_CONCURRENT_MAKEMKVINFO cfg < int x)
              \<and> int c \<le> MAX_CONCURRENT_MAKEMKVINFO cfg
              \<and> (\<forall>x \<in> set pre'. MAX_CONCURRENT_MAKEMKVINFO cfg < int x)
              \<and> int c' \<le> MAX_CONCURRENT_MAKEMKVINFO cfg \<longrightarrow>
              makemkv_info cfg w select index options
                = Some (Set_status VIDEO_WAITING
                        # concat (map (\<lambda>x. [Polled x,
                                          Sleep (Sleep_range 10 (MANUAL_WAIT_TIME cfg) 10)]) pre)
                        @ [Polled c, Set_status VIDEO_INFO, Set_status VIDEO_WAITING,
                           Sleep (Sleep_for (MANUAL_WAIT_TIME cfg))]
                        @ concat (map (\<lambda>x. [Polled x,
                                          Sleep (Sleep_for (MANUAL_WAIT_TIME cfg))]) pre')
                        @ [Polled c', Set_status VIDEO_RIPPING],
                        run (which w) (proc w)
                          ([''info'', ''--cache=1''] @ options @ [''disc:'' @ str_of_int index])
                          select)))"
proof (intro conjI impI allI)
  assume "MAX_CONCURRENT_MAKEMKVINFO cfg = 0"
  then show "makemkv_info cfg w select index options =
        Some ([Set_status VIDEO_WAITING, Set_status VIDEO_INFO, Set_status VIDEO_WAITING,
               Set_status VIDEO_RIPPING],
              run (which w) (proc w)
                ([''info'', ''--cache=1''] @ options @ [''disc:'' @ str_of_int index]) select)"
    by (simp add: makemkv_info_def sleep_check_process_def Let_def split: prod.splits)
next
  assume pos: "0 < MAX_CONCURRENT_MAKEMKVINFO cfg"
    and "\<forall>c \<in> set (counts w). MAX_CONCURRENT_MAKEMKVINFO cfg < int c"
  then have "poll_until (MAX_CONCURRENT_MAKEMKVINFO cfg)
               (Sleep_range 10 (MANUAL_WAIT_TIME cfg) 10) (counts w) = None"
    by (simp add: poll_until_None)
  with pos show "makemkv_info cfg w select index options = None"
    by (simp add: makemkv_info_def sleep_check_process_def Let_def)
next
  fix es q
  assume pos: "0 < MAX_CONCURRENT_MAKEMKVINFO cfg"
    and r: "makemkv_info cfg w select index options = Some (es, q)"
  let ?m = "MAX_CONCURRENT_MAKEMKVINFO cfg"
  let ?sl = "Sleep_range 10 (MANUAL_WAIT_TIME cfg) 10"
  from pos r obtain before counts1 after counts2 where
    b: "poll_until ?m ?sl (counts w) = Some (before, counts1)"
    and a: "poll_until ?m (Sleep_for (MANUAL_WAIT_TIME cfg)) counts1 = Some (after, counts2)"
    and es: "es = [Set_status VIDEO_WAITING] @ before @ [Set_status VIDEO_INFO]
                  @ [Set_status VIDEO_WAITING]
                  @ [Sleep (Sleep_for (MANUAL_WAIT_TIME cfg))]
                  @ after @ [Set_status VIDEO_RIPPING]"
    by (auto simp: makemkv_info_def sleep_check_process_def Let_def
             split: option.splits prod.splits)
  from poll_until_Some [OF b] obtain pre c where
    p: "counts w = pre @ c # counts1" "\<forall>x \<in> set pre. ?m < int x" "int c \<le> ?m"
       "before = concat (map (\<lambda>x. [Polled x, Sleep ?sl]) pre) @ [Polled c]"
    by blast
  show "\<exists>pre c rest after.
                counts w = pre @ c # rest
                \<and> (\<forall>x \<in> set pre. ?m < int x)
                \<and> int c \<le> ?m
                \<and> es = Set_status VIDEO_WAITING
                       # concat (map (\<lambda>x. [Polled x, Sleep ?sl]) pre)
                       @ [Polled c, Set_status VIDEO_INFO] @ after"
    using p es
    by (intro exI [of _ pre] exI [of _ c] exI [of _ counts1]
          exI [of _ "[Set_status VIDEO_WAITING, Sleep (Sleep_for (MANUAL_WAIT_TIME cfg))]
                     @ after @ [Set_status VIDEO_RIPPING]"]) simp
next
  fix pre c rest sl
  assume pos: "0 < MAX_CONCURRENT_MAKEMKVINFO cfg"
    and h: "(\<forall>x \<in> set pre. MAX_CONCURRENT_MAKEMKVINFO cfg < int x)
              \<and> int c \<le> MAX_CONCURRENT_MAKEMKVINFO cfg"
  from pos h poll_until_first [of pre "MAX_CONCURRENT_MAKEMKVINFO cfg" c sl rest]
  show "sleep_check_process (MAX_CONCURRENT_MAKEMKVINFO cfg) sl (pre @ c # rest)
                = Some (concat (map (\<lambda>x. [Polled x, Sleep sl]) pre) @ [Polled c], rest)"
    by (simp add: sleep_check_process_def)
next
  fix pre c pre' c' rest
  let ?m = "MAX_CONCURRENT_MAKEMKVINFO cfg"
  let ?sl = "Sleep_range 10 (MANUAL_WAIT_TIME cfg) 10"
  let ?sl' = "Sleep_for (MANUAL_WAIT_TIME cfg)"
  assume pos: "0 < ?m"
    and h: "counts w = pre @ c # pre' @ c' # rest
              \<and> (\<forall>x \<in> set pre. ?m < int x) \<and> int c \<le> ?m
              \<and> (\<forall>x \<in> set pre'. ?m < int x) \<and> int c' \<le> ?m"
  have 1: "sleep_check_process ?m ?sl (counts w)
             = Some (concat (map (\<lambda>x. [Polled x, Sleep ?sl]) pre) @ [Polled c],
                     pre' @ c' # rest)"
    using pos h poll_until_first [of pre ?m c ?sl "pre' @ c' # rest"]
    by (simp add: sleep_check_process_def)
  have 2: "sleep_check_process ?m ?sl' (pre' @ c' # rest)
             = Some (concat (map (\<lambda>x. [Polled x, Sleep ?sl']) pre') @ [Polled c'], rest)"
    using pos h poll_until_first [of pre' ?m c' ?sl' rest]
    by (simp add: sleep_check_process_def)
  show "makemkv_info cfg w select index options
                = Some (Set_status VIDEO_WAITING
                        # concat (map (\<lambda>x. [Polled x, Sleep ?sl]) pre)
                        @ [Polled c, Set_status VIDEO_INFO, Set_status VIDEO_WAITING,
                           Sleep ?sl']
                        @ concat (map (\<lambda>x. [Polled x, Sleep ?sl']) pre')
                        @ [Polled c', Set_status VIDEO_RIPPING],
                        run (which w) (proc w)
                          ([''info'', ''--cache=1''] @ options @ [''disc:'' @ str_of_int index])
                          select)"
    using pos 1 2
    by (simp add: makemkv_info_def Let_def split: prod.splits)
qed

theorem throttle_ceiling_witness:
  "makemkv_info \<lparr>MANUAL_WAIT_TIME = 60, MAX_CONCURRENT_MAKEMKVINFO = 0\<rparr>
      \<lparr>which = None, counts = [7, 7, 7],
       proc = \<lparr>stdout = [''TCOUNT:0'' @ os_linesep], exit_status = 0\<rparr>\<rparr> {TCOUNT} 0 []
     = Some ([Set_status VIDEO_WAITING, Set_status VIDEO_INFO, Set_status VIDEO_WAITING,
              Set_status VIDEO_RIPPING], [D_Titles \<lparr>titles_count = 0\<rparr>], None)
   \<and> makemkv_info \<lparr>MANUAL_WAIT_TIME = 60, MAX_CONCURRENT_MAKEMKVINFO = 2\<rparr>
      \<lparr>which = None, counts = [7, 7, 7],
       proc = \<lparr>stdout = [''TCOUNT:0'' @ os_linesep], exit_status = 0\<rparr>\<rparr> {TCOUNT} 0 []
     = None
   \<and> makemkv_info \<lparr>MANUAL_WAIT_TIME = 60, MAX_CONCURRENT_MAKEMKVINFO = 2\<rparr>
      \<lparr>which = None, counts = [3, 2, 5, 1],
       proc = \<lparr>stdout = [''TCOUNT:0'' @ os_linesep], exit_status = 0\<rparr>\<rparr> {TCOUNT} 0 []
     = Some ([Set_status VIDEO_WAITING, Polled 3, Sleep (Sleep_range 10 60 10), Polled 2,
              Set_status VIDEO_INFO, Set_status VIDEO_WAITING, Sleep (Sleep_for 60),
              Polled 5, Sleep (Sleep_for 60), Polled 1, Set_status VIDEO_RIPPING],
             [D_Titles \<lparr>titles_count = 0\<rparr>], None)"
proof -
  let ?p = "\<lparr>stdout = [''TCOUNT:0'' @ os_linesep], exit_status = 0\<rparr>"
  have r: "run None ?p ([''info'', ''--cache=1''] @ [] @ [''disc:'' @ str_of_int 0]) {TCOUNT}
           = ([D_Titles \<lparr>titles_count = 0\<rparr>], None)"
    by code_simp
  note a = throttle_ceiling
            [of "\<lparr>MANUAL_WAIT_TIME = 60, MAX_CONCURRENT_MAKEMKVINFO = 0\<rparr>"
                "\<lparr>which = None, counts = [7, 7, 7], proc = ?p\<rparr>" "{TCOUNT}" 0 "[]"]
  note b = throttle_ceiling
            [of "\<lparr>MANUAL_WAIT_TIME = 60, MAX_CONCURRENT_MAKEMKVINFO = 2\<rparr>"
                "\<lparr>which = None, counts = [7, 7, 7], proc = ?p\<rparr>" "{TCOUNT}" 0 "[]"]
  note c = throttle_ceiling
            [of "\<lparr>MANUAL_WAIT_TIME = 60, MAX_CONCURRENT_MAKEMKVINFO = 2\<rparr>"
                "\<lparr>which = None, counts = [3, 2, 5, 1], proc = ?p\<rparr>" "{TCOUNT}" 0 "[]"]
  from a r have 1: "makemkv_info \<lparr>MANUAL_WAIT_TIME = 60, MAX_CONCURRENT_MAKEMKVINFO = 0\<rparr>
      \<lparr>which = None, counts = [7, 7, 7], proc = ?p\<rparr> {TCOUNT} 0 []
     = Some ([Set_status VIDEO_WAITING, Set_status VIDEO_INFO, Set_status VIDEO_WAITING,
              Set_status VIDEO_RIPPING], [D_Titles \<lparr>titles_count = 0\<rparr>], None)"
    by simp
  from b have 2: "makemkv_info \<lparr>MANUAL_WAIT_TIME = 60, MAX_CONCURRENT_MAKEMKVINFO = 2\<rparr>
      \<lparr>which = None, counts = [7, 7, 7], proc = ?p\<rparr> {TCOUNT} 0 []
     = None"
    by simp
  have pos: "0 < MAX_CONCURRENT_MAKEMKVINFO \<lparr>MANUAL_WAIT_TIME = 60, MAX_CONCURRENT_MAKEMKVINFO = 2\<rparr>"
    by simp
  note c3 = c [THEN conjunct2, THEN mp, OF pos, THEN conjunct2, THEN conjunct2, THEN conjunct2,
               rule_format, of "[3]" 2 "[5]" 1 "[]"]
  from c3 r have 3: "makemkv_info \<lparr>MANUAL_WAIT_TIME = 60, MAX_CONCURRENT_MAKEMKVINFO = 2\<rparr>
      \<lparr>which = None, counts = [3, 2, 5, 1], proc = ?p\<rparr> {TCOUNT} 0 []
     = Some ([Set_status VIDEO_WAITING, Polled 3, Sleep (Sleep_range 10 60 10), Polled 2,
              Set_status VIDEO_INFO, Set_status VIDEO_WAITING, Sleep (Sleep_for 60),
              Polled 5, Sleep (Sleep_for 60), Polled 1, Set_status VIDEO_RIPPING],
             [D_Titles \<lparr>titles_count = 0\<rparr>], None)"
    by simp
  from 1 2 3 show ?thesis by simp
qed

subsection \<open>The accumulator after a commit\<close>

text \<open>
  Claim C8, as stated: after every commit the accumulator is back at its
  defaults, the scratch stream type code included. \<^verbatim>\<open>_add_track\<close> resets the
  duration, the aspect ratio, the frame rate and the file name; it leaves
  \<^verbatim>\<open>stream_type\<close> as it is. After the commit of title 1 the video type code
  6201 is still there, and an aspect ratio of title 2 that arrives before any
  stream type of title 2 is recorded.
\<close>

theorem stream_type_survives_commit_counterexample:
  "add_track \<lparr>float_of = Some, float_zero = ''0.0'', float_str = id\<rparr>
      \<lparr>track_id = Some 1, seconds = 5400, aspect = ''16:9'', fps = ''23.976'',
       filename = ''movie.mkv'', stream_type = Some 6201\<rparr>
     = ([Put_track 1 5400 ''16:9'' ''23.976'' False ''MakeMKV'' ''movie.mkv''],
        \<lparr>track_id = Some 1, seconds = 0, aspect = [], fps = ''0.0'', filename = [],
         stream_type = Some 6201\<rparr>)
   \<and> feed \<lparr>float_of = Some, float_zero = ''0.0'', float_str = id\<rparr>
        (TrackInfoProcessor_init \<lparr>float_of = Some, float_zero = ''0.0'', float_str = id\<rparr>)
        [D_SInfo \<lparr>ci_id = 1, ci_code = 6201, ci_value = ''Video'', ti_tid = 1, si_sid = 0\<rparr>,
         D_SInfo \<lparr>ci_id = 20, ci_code = 0, ci_value = ''4:3'', ti_tid = 2, si_sid = 1\<rparr>]
     = ([Put_track 1 0 [] ''0.0'' False ''MakeMKV'' []],
        Inr \<lparr>track_id = Some 2, seconds = 0, aspect = ''4:3'', fps = ''0.0'', filename = [],
             stream_type = Some 6201\<rparr>)"
  by code_simp

lemma handle_tinfo_keeps:
  "handle_tinfo s m = Inr s' \<Longrightarrow>
     track_id s' = track_id s \<and> stream_type s' = stream_type s
     \<and> aspect s' = aspect s \<and> fps s' = fps s"
  by (auto simp: handle_tinfo_def split: if_splits sum.splits)

lemma handle_sinfo_keeps:
  "handle_sinfo F s m = Inr s' \<Longrightarrow>
     track_id s' = track_id s \<and> seconds s' = seconds s \<and> filename s' = filename s"
  by (auto simp: handle_sinfo_def split: if_splits list.splits option.splits)

text \<open>
  Claim C8, amended. A commit hands over the title id, the duration, the aspect
  ratio, the frame rate as a string and the file name accumulated so far, then
  resets the duration to 0, the aspect ratio and the file name to the empty
  string and the frame rate to 0.0; the title id and the stream type code are
  kept. The state after the commit, and the state after the whole step of a
  record of another title that caused it, depend on the state before only
  through the title id and the stream type code: no duration, aspect ratio,
  frame rate or file name recorded for one title reaches the descriptor of a
  later one.
\<close>

theorem add_track_resets:
  assumes "track_id s = Some t"
  shows "fst (add_track F s)
           = [Put_track t (seconds s) (aspect s) (float_str F (fps s)) False SOURCE (filename s)]
         \<and> seconds (snd (add_track F s)) = 0
         \<and> aspect (snd (add_track F s)) = []
         \<and> fps (snd (add_track F s)) = float_zero F
         \<and> filename (snd (add_track F s)) = []
         \<and> track_id (snd (add_track F s)) = Some t
         \<and> stream_type (snd (add_track F s)) = stream_type s
         \<and> (track_id s2 = Some t \<and> stream_type s2 = stream_type s \<longrightarrow>
              snd (add_track F s2) = snd (add_track F s))
         \<and> (track_id s2 = Some t \<and> stream_type s2 = stream_type s
              \<and> title_of message = Some u \<and> u \<noteq> t
              \<longrightarrow> snd (process_message F s2 message) = snd (process_message F s message))"
proof -
  have r: "snd (add_track F x)
             = \<lparr>track_id = Some t, seconds = 0, aspect = [], fps = float_zero F,
                filename = [], stream_type = stream_type x\<rparr>"
    if "track_id x = Some t" for x :: "'a TrackInfoProcessor"
    using that by (cases x) (simp add: add_track_def)
  have eq: "snd (add_track F s2) = snd (add_track F s)"
    if "track_id s2 = Some t" "stream_type s2 = stream_type s"
    using that r [OF assms] r [of s2] by simp
  have pm: "snd (process_message F s2 message) = snd (process_message F s message)"
    if h: "track_id s2 = Some t" "stream_type s2 = stream_type s"
      "title_of message = Some u" "u \<noteq> t"
  proof (cases message)
    case (D_TInfo m)
    with h(3,4) have "ti_tid m \<noteq> t" by (simp add: title_of_def)
    with D_TInfo h(1) assms eq [OF h(1,2)] show ?thesis
      by (simp add: process_message_def handle_track_or_stream_info_def case_prod_beta)
  next
    case (D_SInfo m)
    with h(3,4) have "ti_tid m \<noteq> t" by (simp add: title_of_def)
    with D_SInfo h(1) assms eq [OF h(1,2)] show ?thesis
      by (simp add: process_message_def handle_track_or_stream_info_def case_prod_beta)
  qed (use h(3) in \<open>simp_all add: title_of_def\<close>)
  show ?thesis
    using assms eq pm by (simp add: add_track_def)
qed

theorem add_track_resets_witness:
  "fst (add_track \<lparr>float_of = Some, float_zero = ''0.0'', float_str = id\<rparr>
          \<lparr>track_id = Some 3, seconds = 120, aspect = ''4:3'', fps = ''25'',
           filename = ''title_t03.mkv'', stream_type = Some 6202\<rparr>)
     = [Put_track 3 120 ''4:3'' ''25'' False ''MakeMKV'' ''title_t03.mkv'']
   \<and> snd (add_track \<lparr>float_of = Some, float_zero = ''0.0'', float_str = id\<rparr>
          \<lparr>track_id = Some 3, seconds = 120, aspect = ''4:3'', fps = ''25'',
           filename = ''title_t03.mkv'', stream_type = Some 6202\<rparr>)
     = snd (add_track \<lparr>float_of = Some, float_zero = ''0.0'', float_str = id\<rparr>
          \<lparr>track_id = Some 3, seconds = 7, aspect = ''16:9'', fps = ''30'',
           filename = ''other.mkv'', stream_type = Some 6202\<rparr>)
   \<and> snd (process_message \<lparr>float_of = Some, float_zero = ''0.0'', float_str = id\<rparr>
          \<lparr>track_id = Some 3, seconds = 120, aspect = ''4:3'', fps = ''25'',
           filename = ''title_t03.mkv'', stream_type = Some 6202\<rparr>
          (D_TInfo \<lparr>ci_id = 9, ci_code = 0, ci_value = ''0:00:10'', ti_tid = 4\<rparr>))
     = Inr \<lparr>track_id = Some 4, seconds = 10, aspect = [], fps = ''0.0'', filename = [],
            stream_type = Some 6202\<rparr>"
proof -
  let ?F = "\<lparr>float_of = Some, float_zero = ''0.0'', float_str = id\<rparr>"
  let ?s = "\<lparr>track_id = Some 3, seconds = 120, aspect = ''4:3'', fps = ''25'',
           filename = ''title_t03.mkv'', stream_type = Some 6202\<rparr>"
  let ?s2 = "\<lparr>track_id = Some 3, seconds = 7, aspect = ''16:9'', fps = ''30'',
           filename = ''other.mkv'', stream_type = Some 6202\<rparr>"
  have h: "track_id ?s = Some 3" by simp
  have e: "snd (process_message ?F ?s
          (D_TInfo \<lparr>ci_id = 9, ci_code = 0, ci_value = ''0:00:10'', ti_tid = 4\<rparr>))
     = Inr \<lparr>track_id = Some 4, seconds = 10, aspect = [], fps = ''0.0'', filename = [],
            stream_type = Some 6202\<rparr>"
    by code_simp
  show ?thesis
    using add_track_resets [OF h, of ?F ?s2] e
    by (simp add: SOURCE_def)
qed

subsection \<open>Track aggregation\<close>

text \<open>
  Claim C5, as stated: every title id that yields neither a file name nor a
  duration still gets a descriptor committed, with the defaults and without an
  exception. The aggregator has no handler for exceptions: title 0 below has
  neither attribute, and the empty frame rate of its video stream raises
  \<open>IndexError\<close> before anything is committed; and when the query ends with
  \<open>MakeMkvRuntimeError\<close>, the last title is never added.
\<close>

theorem track_without_attributes_not_committed_counterexample:
  "process_messages \<lparr>float_of = Some, float_zero = ''0.0'', float_str = id\<rparr>
      ([D_SInfo \<lparr>ci_id = 1, ci_code = 6201, ci_value = ''Video'', ti_tid = 0, si_sid = 0\<rparr>,
        D_SInfo \<lparr>ci_id = 21, ci_code = 0, ci_value = [], ti_tid = 0, si_sid = 0\<rparr>], None)
     = ([], Some IndexError)
   \<and> process_messages \<lparr>float_of = Some, float_zero = ''0.0'', float_str = id\<rparr>
      ([D_TInfo \<lparr>ci_id = 30, ci_code = 0, ci_value = ''Title 0'', ti_tid = 0\<rparr>],
       Some (MakeMkvRuntimeError 1
               [''/usr/local/bin/makemkvcon'', ''--robot'', ''--messages=-stdout'', ''info'',
                ''--cache=1'', ''disc:0''] []))
     = ([], Some (MakeMkvRuntimeError 1
               [''/usr/local/bin/makemkvcon'', ''--robot'', ''--messages=-stdout'', ''info'',
                ''--cache=1'', ''disc:0''] []))"
  by code_simp

lemma py_split_char_cut:
  "q \<notin> set a \<Longrightarrow> k \<noteq> 0 \<Longrightarrow> py_split [q] k (a @ q # b) = a # py_split [q] (k - 1) b"
  by (subst py_split.simps) (simp add: find_sep_char_cut)

lemma quoted_file_name:
  assumes "CHR 0x22 \<notin> set pre"
  shows "odd_items (py_split ''\"'' (- 1) (pre @ ''\"movie.mkv\"'' @ post))
           = ''movie.mkv'' # odd_items (py_split ''\"'' (- 3) post)"
proof -
  have "pre @ ''\"movie.mkv\"'' @ post = pre @ CHR 0x22 # (''movie.mkv'' @ CHR 0x22 # post)"
    by simp
  moreover have "py_split ''\"'' (- 1) (pre @ CHR 0x22 # (''movie.mkv'' @ CHR 0x22 # post))
                   = pre # py_split ''\"'' (- 2) (''movie.mkv'' @ CHR 0x22 # post)"
    using py_split_char_cut [OF assms, of "- 1"] by simp
  moreover have "py_split ''\"'' (- 2) (''movie.mkv'' @ CHR 0x22 # post)
                   = ''movie.mkv'' # py_split ''\"'' (- 3) post"
    using py_split_char_cut [of "CHR 0x22" "''movie.mkv''" "- 2" post] by simp
  ultimately show ?thesis by simp
qed

lemma duration_fixture: "convert_to_seconds (py_strip_ws ''1:30:00'') = Inr 5400"
  by code_simp

lemma handle_tinfo_total:
  "readable_values F (D_TInfo m) \<Longrightarrow> \<exists>s'. handle_tinfo s m = Inr s'"
  by (auto simp: handle_tinfo_def readable_values_def)

lemma handle_sinfo_total:
  "readable_values F (D_SInfo m) \<Longrightarrow> \<exists>s'. handle_sinfo F s m = Inr s'"
  by (auto simp: handle_sinfo_def readable_values_def split: list.splits)

lemma process_message_total:
  "readable_values F m \<Longrightarrow> \<exists>out s'. process_message F s m = (out, Inr s')"
proof (cases m)
  case (D_TInfo x)
  assume "readable_values F m"
  then have "\<exists>s'. handle_tinfo a x = Inr s'" for a :: "'a TrackInfoProcessor"
    using D_TInfo handle_tinfo_total by blast
  with D_TInfo show ?thesis
    by (simp add: process_message_def handle_track_or_stream_info_def case_prod_beta)
next
  case (D_SInfo x)
  assume "readable_values F m"
  then have "\<exists>s'. handle_sinfo F a x = Inr s'" for a
    using D_SInfo handle_sinfo_total by blast
  with D_SInfo show ?thesis
    by (simp add: process_message_def handle_track_or_stream_info_def case_prod_beta)
qed (simp_all add: process_message_def)

lemma feed_total:
  "\<forall>m \<in> set ms. readable_values F m \<Longrightarrow> \<exists>out s'. feed F s ms = (out, Inr s')"
proof (induction ms arbitrary: s)
  case Nil
  then show ?case by simp
next
  case (Cons m ms)
  from Cons.prems obtain o1 s1 where 1: "process_message F s m = (o1, Inr s1)"
    using process_message_total [of F m s] by auto
  from Cons.prems Cons.IH [of s1] obtain o2 s2 where 2: "feed F s1 ms = (o2, Inr s2)"
    by auto
  from 1 2 show ?case by simp
qed

lemma track_step:
  assumes "handle_track_or_stream_info F s u handler = (out, Inr s')"
    and keeps: "\<And>x y. handler x = Inr y \<Longrightarrow> track_id y = track_id x"
  shows "track_id s' = Some u"
    and "track_id s = Some t \<Longrightarrow> u \<noteq> t \<Longrightarrow>
           Put_track t (seconds s) (aspect s) (float_str F (fps s)) False SOURCE (filename s)
             \<in> set out"
proof -
  let ?c = "track_id s \<noteq> None \<and> Some u \<noteq> track_id s"
  let ?p = "if ?c then add_track F s else ([], s)"
  from assms(1) have o: "out = fst ?p" and h: "handler ((snd ?p)\<lparr>track_id := Some u\<rparr>) = Inr s'"
    by (simp_all add: handle_track_or_stream_info_def case_prod_beta)
  from keeps [OF h] show "track_id s' = Some u" by simp
  show "Put_track t (seconds s) (aspect s) (float_str F (fps s)) False SOURCE (filename s)
             \<in> set out" if "track_id s = Some t" "u \<noteq> t"
    using that o by (auto simp: add_track_def)
qed

lemma process_message_track:
  assumes "process_message F s m = (out, Inr s')"
  shows "track_id s' = (case title_of m of None \<Rightarrow> track_id s | Some u \<Rightarrow> Some u)"
    and "track_id s = Some t \<Longrightarrow> track_id s' \<noteq> Some t \<Longrightarrow>
           Put_track t (seconds s) (aspect s) (float_str F (fps s)) False SOURCE (filename s)
             \<in> set out"
proof -
  have "track_id s' = (case title_of m of None \<Rightarrow> track_id s | Some u \<Rightarrow> Some u)
        \<and> (track_id s = Some t \<longrightarrow> track_id s' \<noteq> Some t \<longrightarrow>
           Put_track t (seconds s) (aspect s) (float_str F (fps s)) False SOURCE (filename s)
             \<in> set out)"
  proof (cases m)
    case (D_TInfo x)
    with assms have a: "handle_track_or_stream_info F s (ti_tid x) (\<lambda>s'. handle_tinfo s' x)
                          = (out, Inr s')"
      by (simp add: process_message_def)
    have k: "\<And>a b. handle_tinfo a x = Inr b \<Longrightarrow> track_id b = track_id a"
      using handle_tinfo_keeps by blast
    from track_step [OF a k] D_TInfo show ?thesis
      by (auto simp: title_of_def)
  next
    case (D_SInfo x)
    with assms have a: "handle_track_or_stream_info F s (ti_tid x) (\<lambda>s'. handle_sinfo F s' x)
                          = (out, Inr s')"
      by (simp add: process_message_def)
    have k: "\<And>a b. handle_sinfo F a x = Inr b \<Longrightarrow> track_id b = track_id a"
      using handle_sinfo_keeps by blast
    from track_step [OF a k] D_SInfo show ?thesis
      by (auto simp: title_of_def)
  qed (use assms in \<open>auto simp: process_message_def title_of_def\<close>)
  then show "track_id s' = (case title_of m of None \<Rightarrow> track_id s | Some u \<Rightarrow> Some u)"
    and "track_id s = Some t \<Longrightarrow> track_id s' \<noteq> Some t \<Longrightarrow>
           Put_track t (seconds s) (aspect s) (float_str F (fps s)) False SOURCE (filename s)
             \<in> set out"
    by blast+
qed

lemma feed_Cons_Inr:
  assumes "feed F s (m # ms) = (out, Inr s')"
  obtains o1 s1 o2 where "process_message F s m = (o1, Inr s1)"
    and "feed F s1 ms = (o2, Inr s')" and "out = o1 @ o2"
  using assms by (auto split: prod.splits sum.splits)

lemma feed_commits:
  assumes "feed F s ms = (out, Inr s')"
    and "track_id s = Some t \<or> (\<exists>m \<in> set ms. title_of m = Some t)"
  shows "track_id s' = Some t
         \<or> (\<exists>sec asp f fn. Put_track t sec asp f False SOURCE fn \<in> set out)"
  using assms
proof (induction ms arbitrary: s out)
  case Nil
  then show ?case by simp
next
  case (Cons m ms)
  from Cons.prems(1) obtain o1 s1 o2 where
    1: "process_message F s m = (o1, Inr s1)" and 2: "feed F s1 ms = (o2, Inr s')"
    and o: "out = o1 @ o2"
    by (rule feed_Cons_Inr)
  show ?case
  proof (cases "track_id s1 = Some t \<or> (\<exists>m \<in> set ms. title_of m = Some t)")
    case True
    from Cons.IH [OF 2 True] o show ?thesis by auto
  next
    case False
    with Cons.prems(2) process_message_track(1) [OF 1] have "track_id s = Some t"
      by (auto split: option.splits)
    from process_message_track(2) [OF 1 this] False o show ?thesis by auto
  qed
qed

lemma track_step_defaults:
  assumes "handle_track_or_stream_info F s u handler = (out, Inr s')"
    and inv: "track_id s = None \<or> track_id s = Some t \<longrightarrow> seconds s = 0 \<and> filename s = []"
    and keeps: "\<And>x y. handler x = Inr y \<Longrightarrow> track_id x = Some t \<Longrightarrow>
                  seconds y = seconds x \<and> filename y = filename x"
    and keeps_id: "\<And>x y. handler x = Inr y \<Longrightarrow> track_id y = track_id x"
  shows "(track_id s' = None \<or> track_id s' = Some t \<longrightarrow> seconds s' = 0 \<and> filename s' = [])
         \<and> (\<forall>sec asp f forced src fn.
               Put_track t sec asp f forced src fn \<in> set out \<longrightarrow> sec = 0 \<and> fn = [])"
proof -
  let ?c = "track_id s \<noteq> None \<and> Some u \<noteq> track_id s"
  let ?p = "if ?c then add_track F s else ([], s)"
  let ?x = "(snd ?p)\<lparr>track_id := Some u\<rparr>"
  from assms(1) have o: "out = fst ?p" and h: "handler ?x = Inr s'"
    by (simp_all add: handle_track_or_stream_info_def case_prod_beta)
  have id: "track_id s' = Some u" using keeps_id [OF h] by simp
  have x: "u = t \<longrightarrow> seconds ?x = 0 \<and> filename ?x = []"
    using inv by (auto simp: add_track_def split: option.splits)
  have "u = t \<longrightarrow> seconds s' = 0 \<and> filename s' = []"
    using keeps [OF h] x by simp
  moreover have "\<forall>sec asp f forced src fn.
               Put_track t sec asp f forced src fn \<in> set out \<longrightarrow> sec = 0 \<and> fn = []"
    using o inv by (auto simp: add_track_def split: option.splits if_splits)
  ultimately show ?thesis using id by simp
qed

lemma handle_tinfo_other:
  "handle_tinfo x m = Inr y \<Longrightarrow> ci_id m \<noteq> TrackID_FILENAME \<Longrightarrow> ci_id m \<noteq> TrackID_DURATION
     \<Longrightarrow> y = x"
  by (simp add: handle_tinfo_def)

lemma process_message_defaults:
  assumes "process_message F s m = (out, Inr s')"
    and "\<not> names_or_times t m"
    and inv: "track_id s = None \<or> track_id s = Some t \<longrightarrow> seconds s = 0 \<and> filename s = []"
  shows "(track_id s' = None \<or> track_id s' = Some t \<longrightarrow> seconds s' = 0 \<and> filename s' = [])
         \<and> (\<forall>sec asp f forced src fn.
               Put_track t sec asp f forced src fn \<in> set out \<longrightarrow> sec = 0 \<and> fn = [])"
proof (cases m)
  case (D_TInfo x)
  with assms(1) have a: "handle_track_or_stream_info F s (ti_tid x) (\<lambda>s'. handle_tinfo s' x)
                          = (out, Inr s')"
    by (simp add: process_message_def)
  show ?thesis
  proof (cases "ti_tid x = t")
    case True
    with assms(2) D_TInfo have n: "ci_id x \<noteq> TrackID_FILENAME" "ci_id x \<noteq> TrackID_DURATION"
      by (simp_all add: names_or_times_def)
    show ?thesis
      by (rule track_step_defaults [OF a inv])
         (use handle_tinfo_other [OF _ n] handle_tinfo_keeps in blast)+
  next
    case False
    have id: "track_id s' = Some (ti_tid x)"
      using track_step(1) [OF a] handle_tinfo_keeps by blast
    have "\<forall>sec asp f forced src fn.
               Put_track t sec asp f forced src fn \<in> set out \<longrightarrow> sec = 0 \<and> fn = []"
      using a inv
      by (auto simp: handle_track_or_stream_info_def add_track_def
               split: option.splits if_splits)
    with id False show ?thesis by simp
  qed
next
  case (D_SInfo x)
  with assms(1) have a: "handle_track_or_stream_info F s (ti_tid x) (\<lambda>s'. handle_sinfo F s' x)
                          = (out, Inr s')"
    by (simp add: process_message_def)
  show ?thesis
    by (rule track_step_defaults [OF a inv]) (use handle_sinfo_keeps in blast)+
qed (use assms in \<open>auto simp: process_message_def\<close>)

lemma feed_defaults:
  assumes "feed F s ms = (out, Inr s')"
    and "\<forall>m \<in> set ms. \<not> names_or_times t m"
    and "track_id s = None \<or> track_id s = Some t \<longrightarrow> seconds s = 0 \<and> filename s = []"
  shows "(track_id s' = None \<or> track_id s' = Some t \<longrightarrow> seconds s' = 0 \<and> filename s' = [])
         \<and> (\<forall>sec asp f forced src fn.
               Put_track t sec asp f forced src fn \<in> set out \<longrightarrow> sec = 0 \<and> fn = [])"
  using assms
proof (induction ms arbitrary: s out)
  case Nil
  then show ?case by simp
next
  case (Cons m ms)
  from Cons.prems(1) obtain o1 s1 o2 where
    1: "process_message F s m = (o1, Inr s1)" and 2: "feed F s1 ms = (o2, Inr s')"
    and o: "out = o1 @ o2"
    by (rule feed_Cons_Inr)
  from Cons.prems(2) have nm: "\<not> names_or_times t m" and nms: "\<forall>m \<in> set ms. \<not> names_or_times t m"
    by simp_all
  note step = process_message_defaults [OF 1 nm Cons.prems(3)]
  note rest = Cons.IH [OF 2 nms conjunct1 [OF step]]
  from step rest o show ?case by auto
qed

text \<open>
  Claim C5, amended. Fed a \<open>TInfo\<close> of title 1 with the file name attribute and
  a value that holds \<^verbatim>\<open>"movie.mkv"\<close> in quotes after a text without quotes,
  then a \<open>TInfo\<close> of title 1 with the duration \<^verbatim>\<open>1:30:00\<close>, the aggregator
  has committed nothing and holds the duration 5400 and the file name
  \<^verbatim>\<open>movie.mkv\<close>; with any \<open>TInfo\<close> of title 2 as third record, exactly one
  descriptor has been committed, that of title 1 with these values, whatever the
  third record holds and before it is handled. Moreover, on a stream whose
  durations and frame rates can all be read and whose query ends without an
  exception, the aggregator does not raise, every title that occurs gets a
  descriptor committed, and each descriptor of a title without file name and
  duration records has the duration 0 and the empty file name. When the query
  ends with an exception, the aggregator raises too and commits no more than
  the loop over the records did: the last title is not added.
\<close>

theorem track_aggregation:
  "(CHR 0x22 \<notin> set pre \<longrightarrow>
      feed F (TrackInfoProcessor_init F)
        [D_TInfo \<lparr>ci_id = 27, ci_code = c1, ci_value = pre @ ''\"movie.mkv\"'' @ post,
                  ti_tid = 1\<rparr>,
         D_TInfo \<lparr>ci_id = 9, ci_code = c2, ci_value = ''1:30:00'', ti_tid = 1\<rparr>]
        = ([], Inr \<lparr>track_id = Some 1, seconds = 5400, aspect = [], fps = float_zero F,
                    filename = ''movie.mkv'', stream_type = None\<rparr>)
      \<and> fst (feed F (TrackInfoProcessor_init F)
        [D_TInfo \<lparr>ci_id = 27, ci_code = c1, ci_value = pre @ ''\"movie.mkv\"'' @ post,
                  ti_tid = 1\<rparr>,
         D_TInfo \<lparr>ci_id = 9, ci_code = c2, ci_value = ''1:30:00'', ti_tid = 1\<rparr>,
         D_TInfo \<lparr>ci_id = a, ci_code = c, ci_value = v, ti_tid = 2\<rparr>])
        = [Put_track 1 5400 [] (float_str F (float_zero F)) False ''MakeMKV'' ''movie.mkv''])
   \<and> ((\<forall>m \<in> set ms. readable_values F m) \<longrightarrow>
        snd (process_messages F (ms, None)) = None
        \<and> (\<forall>t. (\<exists>m \<in> set ms. title_of m = Some t) \<longrightarrow>
              (\<exists>sec asp f fn. Put_track t sec asp f False SOURCE fn
                                 \<in> set (fst (process_messages F (ms, None)))))
        \<and> (\<forall>t. (\<forall>m \<in> set ms. \<not> names_or_times t m) \<longrightarrow>
              (\<forall>sec asp f forced src fn.
                 Put_track t sec asp f forced src fn \<in> set (fst (process_messages F (ms, None)))
                 \<longrightarrow> sec = 0 \<and> fn = [])))
   \<and> snd (process_messages F (ms, Some e)) \<noteq> None
   \<and> fst (process_messages F (ms, Some e)) = fst (feed F (TrackInfoProcessor_init F) ms)"
proof (intro conjI impI)
  let ?r1 = "D_TInfo \<lparr>ci_id = 27, ci_code = c1, ci_value = pre @ ''\"movie.mkv\"'' @ post,
                  ti_tid = 1\<rparr>"
  let ?r2 = "D_TInfo \<lparr>ci_id = 9, ci_code = c2, ci_value = ''1:30:00'', ti_tid = 1\<rparr>"
  let ?r3 = "D_TInfo \<lparr>ci_id = a, ci_code = c, ci_value = v, ti_tid = 2\<rparr>"
  let ?s1 = "\<lparr>track_id = Some 1, seconds = 0, aspect = [], fps = float_zero F,
              filename = ''movie.mkv'', stream_type = None\<rparr>"
  let ?s2 = "\<lparr>track_id = Some 1, seconds = 5400, aspect = [], fps = float_zero F,
              filename = ''movie.mkv'', stream_type = None\<rparr>"
  assume q: "CHR 0x22 \<notin> set pre"
  have 1: "process_message F (TrackInfoProcessor_init F) ?r1 = ([], Inr ?s1)"
    by (simp add: process_message_def handle_track_or_stream_info_def handle_tinfo_def
          TrackInfoProcessor_init_def TrackID_FILENAME_def quoted_file_name [OF q]
          del: append.simps append_Cons)
  have 2: "process_message F ?s1 ?r2 = ([], Inr ?s2)"
    by (simp add: process_message_def handle_track_or_stream_info_def handle_tinfo_def
          TrackID_FILENAME_def TrackID_DURATION_def duration_fixture)
  have 3: "fst (process_message F ?s2 ?r3)
             = [Put_track 1 5400 [] (float_str F (float_zero F)) False ''MakeMKV'' ''movie.mkv'']"
    by (simp add: process_message_def handle_track_or_stream_info_def add_track_def SOURCE_def)
  show "feed F (TrackInfoProcessor_init F) [?r1, ?r2] = ([], Inr ?s2)"
    using 1 2 by simp
  show "fst (feed F (TrackInfoProcessor_init F) [?r1, ?r2, ?r3])
          = [Put_track 1 5400 [] (float_str F (float_zero F)) False ''MakeMKV'' ''movie.mkv'']"
  proof (cases "snd (process_message F ?s2 ?r3)")
    case (Inl e)
    then have "process_message F ?s2 ?r3 = (fst (process_message F ?s2 ?r3), Inl e)"
      by (metis prod.collapse)
    with 1 2 3 show ?thesis by simp
  next
    case (Inr s3)
    then have "process_message F ?s2 ?r3 = (fst (process_message F ?s2 ?r3), Inr s3)"
      by (metis prod.collapse)
    with 1 2 3 show ?thesis by simp
  qed
next
  assume r: "\<forall>m \<in> set ms. readable_values F m"
  from feed_total [OF r] obtain out s' where
    f: "feed F (TrackInfoProcessor_init F) ms = (out, Inr s')"
    by blast
  then have pm: "process_messages F (ms, None) = (out @ fst (add_track F s'), None)"
    by (simp add: process_messages_def)
  then show "snd (process_messages F (ms, None)) = None" by simp
  show "\<forall>t. (\<exists>m \<in> set ms. title_of m = Some t) \<longrightarrow>
              (\<exists>sec asp f fn. Put_track t sec asp f False SOURCE fn
                                 \<in> set (fst (process_messages F (ms, None))))"
  proof (intro allI impI)
    fix t
    assume "\<exists>m \<in> set ms. title_of m = Some t"
    with feed_commits [OF f, of t]
    have "track_id s' = Some t
          \<or> (\<exists>sec asp f fn. Put_track t sec asp f False SOURCE fn \<in> set out)"
      by blast
    then show "\<exists>sec asp f fn. Put_track t sec asp f False SOURCE fn
                                 \<in> set (fst (process_messages F (ms, None)))"
    proof
      assume "track_id s' = Some t"
      then have "Put_track t (seconds s') (aspect s') (float_str F (fps s')) False SOURCE
                   (filename s') \<in> set (fst (process_messages F (ms, None)))"
        using pm by (simp add: add_track_def)
      then show ?thesis by blast
    next
      assume "\<exists>sec asp f fn. Put_track t sec asp f False SOURCE fn \<in> set out"
      then show ?thesis using pm by auto
    qed
  qed
  show "\<forall>t. (\<forall>m \<in> set ms. \<not> names_or_times t m) \<longrightarrow>
              (\<forall>sec asp f forced src fn.
                 Put_track t sec asp f forced src fn \<in> set (fst (process_messages F (ms, None)))
                 \<longrightarrow> sec = 0 \<and> fn = [])"
  proof (intro allI impI)
    fix t sec asp fl forced src fn
    assume n: "\<forall>m \<in> set ms. \<not> names_or_times t m"
      and p: "Put_track t sec asp fl forced src fn \<in> set (fst (process_messages F (ms, None)))"
    have i: "track_id (TrackInfoProcessor_init F) = None
             \<or> track_id (TrackInfoProcessor_init F) = Some t
             \<longrightarrow> seconds (TrackInfoProcessor_init F) = 0
                 \<and> filename (TrackInfoProcessor_init F) = []"
      by (simp add: TrackInfoProcessor_init_def)
    note d = feed_defaults [OF f n i]
    from p pm have "Put_track t sec asp fl forced src fn \<in> set out
                    \<or> Put_track t sec asp fl forced src fn \<in> set (fst (add_track F s'))"
      by auto
    then show "sec = 0 \<and> fn = []"
    proof
      assume "Put_track t sec asp fl forced src fn \<in> set out"
      with d show ?thesis by blast
    next
      assume "Put_track t sec asp fl forced src fn \<in> set (fst (add_track F s'))"
      with d show ?thesis by (auto simp: add_track_def split: option.splits)
    qed
  qed
next
  show "snd (process_messages F (ms, Some e)) \<noteq> None"
    by (simp add: process_messages_def split: prod.splits sum.splits)
next
  show "fst (process_messages F (ms, Some e)) = fst (feed F (TrackInfoProcessor_init F) ms)"
    by (simp add: process_messages_def split: prod.splits sum.splits)
qed

theorem track_aggregation_witness:
  "process_messages \<lparr>float_of = Some, float_zero = ''0.0'', float_str = id\<rparr>
      ([D_TInfo \<lparr>ci_id = 27, ci_code = 0, ci_value = ''...'' @ ''\"movie.mkv\"'' @ ''...'',
                 ti_tid = 1\<rparr>,
        D_TInfo \<lparr>ci_id = 9, ci_code = 0, ci_value = ''1:30:00'', ti_tid = 1\<rparr>,
        D_TInfo \<lparr>ci_id = 30, ci_code = 0, ci_value = ''Title 2'', ti_tid = 2\<rparr>], None)
     = ([Put_track 1 5400 [] ''0.0'' False ''MakeMKV'' ''movie.mkv'',
         Put_track 2 0 [] ''0.0'' False ''MakeMKV'' []], None)
   \<and> fst (feed \<lparr>float_of = Some, float_zero = ''0.0'', float_str = id\<rparr>
      (TrackInfoProcessor_init \<lparr>float_of = Some, float_zero = ''0.0'', float_str = id\<rparr>)
      [D_TInfo \<lparr>ci_id = 27, ci_code = 0, ci_value = ''...'' @ ''\"movie.mkv\"'' @ ''...'',
                 ti_tid = 1\<rparr>,
        D_TInfo \<lparr>ci_id = 9, ci_code = 0, ci_value = ''1:30:00'', ti_tid = 1\<rparr>,
        D_TInfo \<lparr>ci_id = 30, ci_code = 0, ci_value = ''Title 2'', ti_tid = 2\<rparr>])
     = [Put_track 1 5400 [] ''0.0'' False ''MakeMKV'' ''movie.mkv'']"
proof -
  let ?F = "\<lparr>float_of = Some, float_zero = ''0.0'', float_str = id\<rparr>"
  let ?ms = "[D_TInfo \<lparr>ci_id = 27, ci_code = 0, ci_value = ''...'' @ ''\"movie.mkv\"'' @ ''...'',
                 ti_tid = 1\<rparr>,
        D_TInfo \<lparr>ci_id = 9, ci_code = 0, ci_value = ''1:30:00'', ti_tid = 1\<rparr>,
        D_TInfo \<lparr>ci_id = 30, ci_code = 0, ci_value = ''Title 2'', ti_tid = 2\<rparr>]"
  have e: "process_messages ?F (?ms, None)
     = ([Put_track 1 5400 [] ''0.0'' False ''MakeMKV'' ''movie.mkv'',
         Put_track 2 0 [] ''0.0'' False ''MakeMKV'' []], None)"
    by code_simp
  have q: "CHR 0x22 \<notin> set ''...''" by simp
  have r: "\<forall>m \<in> set ?ms. readable_values ?F m"
    by (simp add: readable_values_def TrackID_DURATION_def duration_fixture del: append.simps)
  note t = track_aggregation [of "''...''" ?F 0 "''...''" 0 30 0 "''Title 2''" ?ms TypeError]
  from t q have "fst (feed ?F (TrackInfoProcessor_init ?F) ?ms)
     = [Put_track 1 5400 [] ''0.0'' False ''MakeMKV'' ''movie.mkv'']"
    by simp
  moreover from t r have "snd (process_messages ?F (?ms, None)) = None"
    by blast
  ultimately show ?thesis using e by simp
qed

end
